theory Spec2Isabelle
  imports Complex_Main "HOL-Library.AList"
begin

section \<open>Errors and sequencing\<close>

text \<open>
  The Python exceptions the engine can raise, as values.  A computation that may raise
  returns \<open>error + 'a\<close>, with \<open>Inl\<close> for the exception.
\<close>

datatype error =
    KeyError | ValueError | IndexError | TypeError | AttributeError | OverflowError
  | DataSourceError

fun bindE :: "error + 'a \<Rightarrow> ('a \<Rightarrow> error + 'b) \<Rightarrow> error + 'b" where
  "bindE (Inl e) f = Inl e"
| "bindE (Inr v) f = f v"

fun mapE :: "('a \<Rightarrow> error + 'b) \<Rightarrow> 'a list \<Rightarrow> error + 'b list" where
  "mapE f [] = Inr []"
| "mapE f (x # xs) = bindE (f x) (\<lambda>y. bindE (mapE f xs) (\<lambda>ys. Inr (y # ys)))"

section \<open>Column names (common.py)\<close>

datatype PDColName =
    GRID_SUPPLY | GRID_EXPORT | PW_SUPPLY | HOME_DEMAND | SOLAR_SUPPLY
  | GRID_TO_HOME | PW_TO_HOME | SOLAR_TO_HOME | GRID_CHARGING
  | RESIDUAL_DEMAND_1 | RESIDUAL_DEMAND_2 | RESIDUAL_DEMAND_FINAL
  | SELF_PW_NET_OF_GRID | SELF_SOLAR_PLUS_RES | SELF_TOTAL
  | SUPPLY_CHARGE | TARIFF | TIME

text \<open>The \<open>.value\<close> of each member of the string enum: the pandas column name.\<close>

fun col_value :: "PDColName \<Rightarrow> string" where
  "col_value GRID_SUPPLY = ''Grid supply''"
| "col_value GRID_EXPORT = ''Grid export''"
| "col_value PW_SUPPLY = ''PW supply''"
| "col_value HOME_DEMAND = ''Home Demand''"
| "col_value SOLAR_SUPPLY = ''Solar supply''"
| "col_value GRID_TO_HOME = ''Grid to Home''"
| "col_value PW_TO_HOME = ''PW to Home''"
| "col_value SOLAR_TO_HOME = ''Solar to Home''"
| "col_value GRID_CHARGING = ''Grid charging''"
| "col_value RESIDUAL_DEMAND_1 = ''Home demand ex supply 1''"
| "col_value RESIDUAL_DEMAND_2 = ''Home demand ex supply 1+2''"
| "col_value RESIDUAL_DEMAND_FINAL = ''Home demand ex supplies''"
| "col_value SELF_PW_NET_OF_GRID = ''PW to home-grid charge''"
| "col_value SELF_SOLAR_PLUS_RES = ''Solar to home+residual''"
| "col_value SELF_TOTAL = ''Self consumption''"
| "col_value SUPPLY_CHARGE = ''Supply Charge''"
| "col_value TARIFF = ''Tariff''"
| "col_value TIME = ''_time''"

text \<open>\<open>PDColName.from_str\<close>: lookup by member name; \<open>None\<close> when it is not a name.\<close>

definition from_str :: "string \<Rightarrow> PDColName option" where
  "from_str str_v = map_of
     [(''GRID_SUPPLY'', GRID_SUPPLY), (''GRID_EXPORT'', GRID_EXPORT),
      (''PW_SUPPLY'', PW_SUPPLY), (''HOME_DEMAND'', HOME_DEMAND),
      (''SOLAR_SUPPLY'', SOLAR_SUPPLY), (''GRID_TO_HOME'', GRID_TO_HOME),
      (''PW_TO_HOME'', PW_TO_HOME), (''SOLAR_TO_HOME'', SOLAR_TO_HOME),
      (''GRID_CHARGING'', GRID_CHARGING), (''RESIDUAL_DEMAND_1'', RESIDUAL_DEMAND_1),
      (''RESIDUAL_DEMAND_2'', RESIDUAL_DEMAND_2),
      (''RESIDUAL_DEMAND_FINAL'', RESIDUAL_DEMAND_FINAL),
      (''SELF_PW_NET_OF_GRID'', SELF_PW_NET_OF_GRID),
      (''SELF_SOLAR_PLUS_RES'', SELF_SOLAR_PLUS_RES), (''SELF_TOTAL'', SELF_TOTAL),
      (''SUPPLY_CHARGE'', SUPPLY_CHARGE), (''TARIFF'', TARIFF), (''TIME'', TIME)] str_v"

text \<open>
  \<open>value_with_override\<close>: the user's replacement string when the override dictionary
  has one, the enum value otherwise.
\<close>

definition value_with_override :: "(PDColName \<rightharpoonup> string) \<Rightarrow> PDColName \<Rightarrow> string" where
  "value_with_override override c = (case override c of Some s \<Rightarrow> s | None \<Rightarrow> col_value c)"

section \<open>Floating-point numbers\<close>

text \<open>
  The number columns of the frame are float64.  A finite float64 is the real number it
  stands for, and an arithmetic operation of numpy on two of them is the exact operation
  followed by the rounding of IEEE 754 binary64: to the nearest number with a 53-bit
  significand and an exponent of at least -1022 (below it the spacing stays
  \<open>2^-1074\<close>, the subnormal numbers), ties to the even significand; a result that rounds
  to \<open>2^1024\<close> or beyond in magnitude is an infinity.
\<close>

definition rne :: "real \<Rightarrow> int" where
  "rne y = (let f = \<lfloor>y\<rfloor>; d = y - of_int f in
     if d < 1/2 then f else if 1/2 < d then f + 1 else if even f then f else f + 1)"

definition binade :: "real \<Rightarrow> int" where
  "binade x = (if x = 0 then - 1022 else max \<lfloor>log 2 \<bar>x\<bar>\<rfloor> (- 1022))"

definition ulp :: "real \<Rightarrow> real" where
  "ulp x = 2 powr of_int (binade x - 52)"

definition round64 :: "real \<Rightarrow> real" where
  "round64 x = of_int (rne (x / ulp x)) * ulp x"

text \<open>The finite float64 numbers: those the rounding leaves as they are, below \<open>2^1024\<close>.\<close>

definition is_float64 :: "real \<Rightarrow> bool" where
  "is_float64 d \<longleftrightarrow> round64 d = d \<and> \<bar>d\<bar> < 2 ^ 1024"

section \<open>The flow frame\<close>

text \<open>
  A pandas cell is a float (a finite number, an infinity or NaN, the missing value) or a
  string.  A frame is its ordered list of column names and its rows; a row is its index
  label and its cells.  The index of the frame is timezone-aware: a label is an instant
  (microseconds since 1970-01-01T00:00 UTC) together with the wall-clock time the
  index's timezone shows at that instant (microseconds since 1970-01-01T00:00 on that
  clock); pandas compares and looks up labels by their instant and reads day of week and
  time of day from the wall clock.  The cell of a row under a name that is not a column
  of the frame has no meaning and is never read: every read checks the column list
  first, as pandas raises \<open>KeyError\<close>.  Index labels are taken to be distinct, so that
  selecting rows by a list of labels selects each of those rows once.
\<close>

datatype cell = Num real | PosInf | NegInf | Str string | NaN

record timestamp =
  utc_value :: int
  local_wall :: int

record row =
  stamp :: timestamp
  cells :: "string \<Rightarrow> cell"

record frame =
  columns :: "string list"
  rows :: "row list"

text \<open>A rate of the configuration file: a JSON number, an \<open>int\<close> or a \<open>float\<close> in Python.\<close>

datatype json_number = JInt int | JFloat real

text \<open>
  The vectorised expressions the engine evaluates on columns, and their value on one
  row.  Arithmetic on a string cell raises \<open>TypeError\<close>, except that Python repeats a
  string multiplied by an \<open>int\<close>; NaN propagates.  (An \<open>int\<close> rate is taken to be
  below \<open>2^53\<close> in magnitude, where its conversion to float64 is exact.)
\<close>

datatype expr =
    Col string
  | Lit cell
  | Sub expr expr
  | Add expr expr
  | ClipLower0 expr
  | Times expr json_number

definition float64_result :: "real \<Rightarrow> cell" where
  "float64_result x =
     (let y = round64 x in
      if 2 ^ 1024 \<le> y then PosInf else if y \<le> - (2 ^ 1024) then NegInf else Num y)"

fun cell_sub :: "cell \<Rightarrow> cell \<Rightarrow> error + cell" where
  "cell_sub (Str a) y = Inl TypeError"
| "cell_sub x (Str b) = Inl TypeError"
| "cell_sub NaN y = Inr NaN"
| "cell_sub x NaN = Inr NaN"
| "cell_sub (Num a) (Num b) = Inr (float64_result (a - b))"
| "cell_sub (Num a) PosInf = Inr NegInf"
| "cell_sub (Num a) NegInf = Inr PosInf"
| "cell_sub PosInf PosInf = Inr NaN"
| "cell_sub PosInf y = Inr PosInf"
| "cell_sub NegInf NegInf = Inr NaN"
| "cell_sub NegInf y = Inr NegInf"

fun cell_add :: "cell \<Rightarrow> cell \<Rightarrow> error + cell" where
  "cell_add (Str a) y = Inl TypeError"
| "cell_add x (Str b) = Inl TypeError"
| "cell_add NaN y = Inr NaN"
| "cell_add x NaN = Inr NaN"
| "cell_add (Num a) (Num b) = Inr (float64_result (a + b))"
| "cell_add (Num a) y = Inr y"
| "cell_add PosInf NegInf = Inr NaN"
| "cell_add PosInf y = Inr PosInf"
| "cell_add NegInf PosInf = Inr NaN"
| "cell_add NegInf y = Inr NegInf"

text \<open>\<open>clip(lower=lo)\<close> on a float: values under \<open>lo\<close> become \<open>lo\<close>.\<close>

definition clip_lower :: "real \<Rightarrow> real \<Rightarrow> real" where
  "clip_lower a lo = max a lo"

fun cell_clip_lower0 :: "cell \<Rightarrow> error + cell" where
  "cell_clip_lower0 (Num a) = Inr (Num (clip_lower a 0))"
| "cell_clip_lower0 PosInf = Inr PosInf"
| "cell_clip_lower0 NegInf = Inr (Num 0)"
| "cell_clip_lower0 (Str a) = Inl TypeError"
| "cell_clip_lower0 NaN = Inr NaN"

definition rate_float :: "json_number \<Rightarrow> real" where
  "rate_float k = (case k of JInt n \<Rightarrow> of_int n | JFloat x \<Rightarrow> x)"

fun cell_times :: "cell \<Rightarrow> json_number \<Rightarrow> error + cell" where
  "cell_times (Num a) k = Inr (float64_result (a * rate_float k))"
| "cell_times PosInf k =
     Inr (if 0 < rate_float k then PosInf else if rate_float k < 0 then NegInf else NaN)"
| "cell_times NegInf k =
     Inr (if 0 < rate_float k then NegInf else if rate_float k < 0 then PosInf else NaN)"
| "cell_times (Str a) (JInt n) = Inr (Str (concat (replicate (nat n) a)))"
| "cell_times (Str a) (JFloat x) = Inl TypeError"
| "cell_times NaN k = Inr NaN"

fun eval :: "expr \<Rightarrow> row \<Rightarrow> error + cell" where
  "eval (Col c) r = Inr (cells r c)"
| "eval (Lit v) r = Inr v"
| "eval (Sub a b) r = bindE (eval a r) (\<lambda>x. bindE (eval b r) (\<lambda>y. cell_sub x y))"
| "eval (Add a b) r = bindE (eval a r) (\<lambda>x. bindE (eval b r) (\<lambda>y. cell_add x y))"
| "eval (ClipLower0 a) r = bindE (eval a r) cell_clip_lower0"
| "eval (Times a k) r = bindE (eval a r) (\<lambda>x. cell_times x k)"

fun cols_of :: "expr \<Rightarrow> string list" where
  "cols_of (Col c) = [c]"
| "cols_of (Lit v) = []"
| "cols_of (Sub a b) = cols_of a @ cols_of b"
| "cols_of (Add a b) = cols_of a @ cols_of b"
| "cols_of (ClipLower0 a) = cols_of a"
| "cols_of (Times a k) = cols_of a"

definition put :: "string \<Rightarrow> cell \<Rightarrow> row \<Rightarrow> row" where
  "put c v r = r\<lparr>cells := (cells r)(c := v)\<rparr>"

definition add_column :: "string \<Rightarrow> string list \<Rightarrow> string list" where
  "add_column c cs = (if c \<in> set cs then cs else cs @ [c])"

text \<open>
  \<open>df[c] = e\<close>: every column \<open>e\<close> reads must exist (\<open>KeyError\<close>), \<open>e\<close> is evaluated on
  every row, and the column \<open>c\<close> is replaced, or appended when it is new.
\<close>

definition assign :: "string \<Rightarrow> expr \<Rightarrow> frame \<Rightarrow> error + frame" where
  "assign c e df =
     (if \<not> set (cols_of e) \<subseteq> set (columns df) then Inl KeyError
      else bindE (mapE (eval e) (rows df)) (\<lambda>vs.
        Inr \<lparr>columns = add_column c (columns df),
             rows = map2 (put c) vs (rows df)\<rparr>))"

text \<open>
  \<open>df.loc[idx, c] = e\<close> with \<open>e\<close> read through the same \<open>.loc[idx, ...]\<close>: \<open>e\<close> is
  evaluated on the rows whose label is in \<open>idx\<close> and written there.  The other rows keep
  their cell when \<open>c\<close> is a column already, and get NaN when pandas has to add it.
\<close>

definition loc_assign :: "timestamp list \<Rightarrow> string \<Rightarrow> expr \<Rightarrow> frame \<Rightarrow> error + frame" where
  "loc_assign idx c e df =
     (if \<not> set (cols_of e) \<subseteq> set (columns df) then Inl KeyError
      else bindE
        (mapE (\<lambda>r. if stamp r \<in> set idx then eval e r
                    else Inr (if c \<in> set (columns df) then cells r c else NaN)) (rows df))
        (\<lambda>vs. Inr \<lparr>columns = add_column c (columns df),
                    rows = map2 (put c) vs (rows df)\<rparr>))"

section \<open>The supply allocator (UsageEngine._core_usage)\<close>

definition RESIDUALS :: "PDColName list" where
  "RESIDUALS = [RESIDUAL_DEMAND_1, RESIDUAL_DEMAND_2, RESIDUAL_DEMAND_FINAL]"

fun SUPPLY_TO_DEMAND :: "PDColName \<Rightarrow> PDColName option" where
  "SUPPLY_TO_DEMAND GRID_SUPPLY = Some GRID_TO_HOME"
| "SUPPLY_TO_DEMAND PW_SUPPLY = Some PW_TO_HOME"
| "SUPPLY_TO_DEMAND SOLAR_SUPPLY = Some SOLAR_TO_HOME"
| "SUPPLY_TO_DEMAND c = None"

text \<open>
  The loop \<open>for i in range(len(self._priority))\<close>: \<open>supplies\<close> is the part of the
  priority list still to do, \<open>i\<close> the loop index and \<open>last_residual\<close> the residual
  column of the iteration before (the home demand at the start).
\<close>

fun allocate :: "PDColName list \<Rightarrow> nat \<Rightarrow> PDColName \<Rightarrow> frame \<Rightarrow> error + frame" where
  "allocate [] i last_residual df = Inr df"
| "allocate (supply # supplies) i last_residual df =
     (if length RESIDUALS \<le> i then Inl IndexError
      else let this_residual = RESIDUALS ! i in
        bindE (assign (col_value this_residual)
                 (ClipLower0 (Sub (Col (col_value last_residual)) (Col (col_value supply)))) df)
          (\<lambda>df1. case SUPPLY_TO_DEMAND supply of
               None \<Rightarrow> Inl KeyError
             | Some demand \<Rightarrow>
                 bindE (assign (col_value demand)
                          (Sub (Col (col_value last_residual)) (Col (col_value this_residual))) df1)
                   (allocate supplies (i + 1) this_residual)))"

definition core_usage :: "PDColName list \<Rightarrow> frame \<Rightarrow> error + frame" where
  "core_usage priority df =
     bindE (allocate priority 0 HOME_DEMAND df) (\<lambda>df1.
     bindE (assign (col_value GRID_CHARGING)
              (Sub (Col (col_value GRID_SUPPLY)) (Col (col_value GRID_TO_HOME))) df1) (\<lambda>df2.
     bindE (assign (col_value SELF_PW_NET_OF_GRID)
              (Sub (Col (col_value PW_TO_HOME)) (Col (col_value GRID_CHARGING))) df2) (\<lambda>df3.
     bindE (assign (col_value SELF_SOLAR_PLUS_RES)
              (Add (Col (col_value SOLAR_TO_HOME)) (Col (col_value RESIDUAL_DEMAND_FINAL))) df3) (\<lambda>df4.
     bindE (assign (col_value SELF_TOTAL)
              (Add (Col (col_value PW_TO_HOME)) (Col (col_value SELF_SOLAR_PLUS_RES))) df4) (\<lambda>df5.
     assign (col_value TARIFF) (Lit (Str ''None'')) df5)))))"

text \<open>
  \<open>_init_settings\<close>, the part that fixes the supply priority: the default order, or the
  configured list when it has exactly three entries and each of the three supplies is
  among them (\<open>TypeError\<close> otherwise).  A name that is no column name becomes \<open>None\<close>
  in the list that is checked; a list that passes the check has no \<open>None\<close>.
\<close>

definition DEFAULT_PRIORITY :: "PDColName list" where
  "DEFAULT_PRIORITY = [GRID_SUPPLY, PW_SUPPLY, SOLAR_SUPPLY]"

definition init_priority :: "string list option \<Rightarrow> error + PDColName list" where
  "init_priority setting =
     (case setting of
        None \<Rightarrow> Inr DEFAULT_PRIORITY
      | Some names \<Rightarrow>
          let priority_v = map from_str names;
              all_found = list_all (\<lambda>x. Some x \<in> set priority_v) DEFAULT_PRIORITY
          in if \<not> all_found \<or> length names \<noteq> 3 then Inl TypeError
             else Inr (map the priority_v))"

section \<open>Row-wise view of the column operations\<close>

text \<open>
  What an assignment does to one row: the frame-level operations above succeed only
  when this succeeds on every row, and then each row of the result is the result of
  its row.
\<close>

definition assign_row :: "string \<Rightarrow> expr \<Rightarrow> row \<Rightarrow> error + row" where
  "assign_row c e r = bindE (eval e r) (\<lambda>v. Inr (put c v r))"

fun allocate_row :: "PDColName list \<Rightarrow> nat \<Rightarrow> PDColName \<Rightarrow> row \<Rightarrow> error + row" where
  "allocate_row [] i last_residual r = Inr r"
| "allocate_row (supply # supplies) i last_residual r =
     (if length RESIDUALS \<le> i then Inl IndexError
      else let this_residual = RESIDUALS ! i in
        bindE (assign_row (col_value this_residual)
                 (ClipLower0 (Sub (Col (col_value last_residual)) (Col (col_value supply)))) r)
          (\<lambda>r1. case SUPPLY_TO_DEMAND supply of
               None \<Rightarrow> Inl KeyError
             | Some demand \<Rightarrow>
                 bindE (assign_row (col_value demand)
                          (Sub (Col (col_value last_residual)) (Col (col_value this_residual))) r1)
                   (allocate_row supplies (i + 1) this_residual)))"

definition core_usage_row :: "PDColName list \<Rightarrow> row \<Rightarrow> error + row" where
  "core_usage_row priority r =
     bindE (allocate_row priority 0 HOME_DEMAND r) (\<lambda>r1.
     bindE (assign_row (col_value GRID_CHARGING)
              (Sub (Col (col_value GRID_SUPPLY)) (Col (col_value GRID_TO_HOME))) r1) (\<lambda>r2.
     bindE (assign_row (col_value SELF_PW_NET_OF_GRID)
              (Sub (Col (col_value PW_TO_HOME)) (Col (col_value GRID_CHARGING))) r2) (\<lambda>r3.
     bindE (assign_row (col_value SELF_SOLAR_PLUS_RES)
              (Add (Col (col_value SOLAR_TO_HOME)) (Col (col_value RESIDUAL_DEMAND_FINAL))) r3) (\<lambda>r4.
     bindE (assign_row (col_value SELF_TOTAL)
              (Add (Col (col_value PW_TO_HOME)) (Col (col_value SELF_SOLAR_PLUS_RES))) r4) (\<lambda>r5.
     assign_row (col_value TARIFF) (Lit (Str ''None'')) r5)))))"

fun is_num :: "cell \<Rightarrow> bool" where
  "is_num (Num x) = True"
| "is_num c = False"

fun num :: "cell \<Rightarrow> real" where
  "num (Num x) = x"
| "num c = 0"

text \<open>
  The check \<open>_init_settings\<close> makes on a configured priority list, on a list of column
  names: three entries, each of the three supplies among them.
\<close>

definition is_supply_permutation :: "PDColName list \<Rightarrow> bool" where
  "is_supply_permutation p = (length p = 3 \<and> list_all (\<lambda>x. x \<in> set p) DEFAULT_PRIORITY)"

text \<open>
  The position \<open>i\<close> of the waterfall on one row: the amount allocated from the
  \<open>i\<close>-th supply of the priority list, that supply's value, and the residual demand
  before the allocation (the home demand at position 0).  \<open>r\<close> is the row as read,
  \<open>r'\<close> the row \<open>_core_usage\<close> leaves.
\<close>

definition allocated :: "PDColName list \<Rightarrow> row \<Rightarrow> nat \<Rightarrow> cell" where
  "allocated priority r' i = cells r' (col_value (the (SUPPLY_TO_DEMAND (priority ! i))))"

definition supplied :: "PDColName list \<Rightarrow> row \<Rightarrow> nat \<Rightarrow> cell" where
  "supplied priority r i = cells r (col_value (priority ! i))"

definition residual_before :: "row \<Rightarrow> nat \<Rightarrow> cell" where
  "residual_before r' i = cells r' (col_value ((HOME_DEMAND # RESIDUALS) ! i))"

text \<open>
  Example frames: one row each, with the five columns read from the data source; the
  label of an index in UTC shows its instant on the wall clock.
\<close>

definition influx_columns :: "string list" where
  "influx_columns = map col_value [GRID_SUPPLY, GRID_EXPORT, PW_SUPPLY, SOLAR_SUPPLY, HOME_DEMAND]"

definition utc_stamp :: "int \<Rightarrow> timestamp" where
  "utc_stamp u = \<lparr>utc_value = u, local_wall = u\<rparr>"

definition flow_row :: "timestamp \<Rightarrow> real \<Rightarrow> real \<Rightarrow> real \<Rightarrow> real \<Rightarrow> row" where
  "flow_row t home grid pw solar =
     \<lparr>stamp = t,
      cells = (\<lambda>c. NaN)(col_value HOME_DEMAND := Num home, col_value GRID_SUPPLY := Num grid,
        col_value PW_SUPPLY := Num pw, col_value SOLAR_SUPPLY := Num solar,
        col_value GRID_EXPORT := Num 0)\<rparr>"

definition scenario_d_frame :: frame where
  "scenario_d_frame = \<lparr>columns = influx_columns, rows = [flow_row (utc_stamp 0) 10 4 3 2]\<rparr>"

definition negative_grid_frame :: frame where
  "negative_grid_frame = \<lparr>columns = influx_columns, rows = [flow_row (utc_stamp 0) 10 (- 1) 3 2]\<rparr>"

section \<open>Time\<close>

text \<open>
  Times are counted in microseconds.  A \<open>datetime\<close> of the engine is an aware Python
  datetime in the engine's timezone: its wall-clock fields (microseconds since
  1970-01-01T00:00 on the local clock) and its \<open>fold\<close> attribute, which tells the two
  passes of a repeated hour apart.  Python compares two aware datetimes of the same
  timezone by their wall-clock fields alone, and so does the engine wherever it compares
  two of them; pandas converts a datetime to its instant before it compares it with the
  index.  A \<open>time\<close> is a time of day in microseconds since midnight.
\<close>

record datetime =
  wall :: int
  fold_attr :: bool

type_synonym time = nat

text \<open>
  What a \<open>ZoneInfo\<close> object does: \<open>utcoffset\<close> is the offset from UTC of a local
  datetime, \<open>fromutc\<close> the local datetime of an instant.  \<open>astimezone\<close>, on a datetime in
  UTC, is \<open>fromutc\<close>, and raises \<open>OverflowError\<close> when the local wall clock leaves the
  range of \<open>datetime\<close>, 0001-01-01T00:00:00 to 9999-12-31T23:59:59.999999.
\<close>

record zone =
  utcoffset :: "datetime \<Rightarrow> int"
  fromutc :: "int \<Rightarrow> datetime"

definition datetime_min :: int where
  "datetime_min = - 62135596800000000"

definition datetime_max :: int where
  "datetime_max = 253402300799999999"

definition astimezone :: "zone \<Rightarrow> int \<Rightarrow> error + datetime" where
  "astimezone tz u =
     (let dt = fromutc tz u in
      if wall dt < datetime_min \<or> datetime_max < wall dt then Inl OverflowError else Inr dt)"

text \<open>The instant of a datetime of the zone, as pandas takes it to compare it with the index.\<close>

definition instant :: "zone \<Rightarrow> datetime \<Rightarrow> int" where
  "instant tz dt = wall dt - utcoffset tz dt"

text \<open>\<open>DatetimeIndex.tz_convert\<close>, on one label: the same instant, on the clock of the zone.\<close>

definition tz_convert :: "zone \<Rightarrow> timestamp \<Rightarrow> timestamp" where
  "tz_convert tz t = t\<lparr>local_wall := wall (fromutc tz (utc_value t))\<rparr>"

definition day_us :: int where
  "day_us = 86400000000"

text \<open>pandas \<open>dayofweek\<close>: Monday is 0; 1970-01-01 was a Thursday.\<close>

definition dayofweek :: "timestamp \<Rightarrow> int" where
  "dayofweek t = (local_wall t div day_us + 3) mod 7"

definition time_of_day :: "timestamp \<Rightarrow> time" where
  "time_of_day t = nat (local_wall t mod day_us)"

text \<open>
  \<open>Series.between(left, right, inclusive="left")\<close> used as a row selection, with the two
  bounds as instants, and \<open>Series.between_time(start_time, end_time, inclusive="left")\<close>:
  pandas joins the two comparisons with \<open>and\<close> when \<open>start_time <= end_time\<close> and with
  \<open>or\<close> otherwise (a period that wraps midnight).
\<close>

definition between_left :: "int \<Rightarrow> int \<Rightarrow> timestamp list \<Rightarrow> timestamp list" where
  "between_left left right idx = filter (\<lambda>t. left \<le> utc_value t \<and> utc_value t < right) idx"

definition in_time_range :: "time \<Rightarrow> time \<Rightarrow> time \<Rightarrow> bool" where
  "in_time_range start_time end_time t =
     (if start_time \<le> end_time then start_time \<le> t \<and> t < end_time
      else start_time \<le> t \<or> t < end_time)"

definition between_time_left :: "time \<Rightarrow> time \<Rightarrow> timestamp list \<Rightarrow> timestamp list" where
  "between_time_left start_time end_time idx =
     filter (\<lambda>t. in_time_range start_time end_time (time_of_day t)) idx"

section \<open>Plans and calendar (the dataclasses of engine.py)\<close>

record TariffPeriod =
  tariff :: string
  start :: time
  end_time :: time

record TariffSchedule =
  name :: string
  days :: "int set"
  periods :: "TariffPeriod list"

text \<open>
  A Python dictionary is an association list with distinct keys, in insertion order:
  \<open>d[k] = v\<close> is \<open>AList.update k v d\<close> (the value replaced in place, or the pair appended),
  \<open>d[k]\<close> is \<open>map_of d k\<close> with \<open>KeyError\<close> for \<open>None\<close>.
\<close>

type_synonym ('k, 'v) dict = "('k \<times> 'v) list"

definition getitem :: "('k, 'v) dict \<Rightarrow> 'k \<Rightarrow> error + 'v" where
  "getitem d k = (case map_of d k of None \<Rightarrow> Inl KeyError | Some v \<Rightarrow> Inr v)"

text \<open>
  The agent classes a plan can name.  \<open>_get_agent\<close> knows one, \<open>SimpleAgent\<close>, which
  declares that it can persist; the plan then keeps one instance, and the agent has no
  state.
\<close>

datatype agent = SimpleAgent

record UsagePlan =
  plan_name :: string
  plan_agent :: agent
  report_cols :: "PDColName list"
  seasons :: "(string, (string, TariffSchedule) dict) dict"

text \<open>
  The name of a rate in a rate table: the string of the configuration file, or the
  column name \<open>__post_init__\<close> replaces it with.
\<close>

datatype rate_name = Raw string | Sanitised PDColName

record CalendarEntry =
  start_date :: datetime
  plan :: string
  season :: string
  tariffs :: "(string, (rate_name, json_number) dict) dict"
  end_date :: "datetime option"

text \<open>The class variables of \<open>UsageEngine\<close> that the calculation reads.\<close>

record engine =
  cls_influx_client :: "string option"
  cls_timezone :: "zone option"
  cls_bucket :: string
  cls_priority :: "PDColName list"
  cls_plans :: "(string, UsagePlan) dict"
  cls_calendar :: "(datetime, CalendarEntry) dict"
  cls_col_overrides :: "PDColName \<rightharpoonup> string"
  cls_cost_unit :: string
  cls_energy_unit :: string

text \<open>The instance variables of one request: the frame and the report-column registry.\<close>

record request =
  req_frame :: frame
  req_report_cols :: "(string, string) dict"

fun foldE :: "('a \<Rightarrow> 's \<Rightarrow> error + 's) \<Rightarrow> 'a list \<Rightarrow> 's \<Rightarrow> error + 's" where
  "foldE f [] st = Inr st"
| "foldE f (x # xs) st = bindE (f x st) (foldE f xs)"

section \<open>Report columns (\<open>_add_energy_reports\<close>, \<open>SimpleAgent.usage\<close>)\<close>

text \<open>
  The registration both places use:
  \<open>if full_name not in report_cols: report_cols[full_name] = "number"\<close>.
\<close>

definition register :: "string \<Rightarrow> (string, string) dict \<Rightarrow> (string, string) dict" where
  "register full_name reg =
     (if full_name \<notin> fst ` set reg then AList.update full_name ''number'' reg else reg)"

text \<open>The f-string \<open>f"{tariff} {full_name} ({unit})"\<close>.\<close>

definition report_name :: "string \<Rightarrow> string \<Rightarrow> string \<Rightarrow> string" where
  "report_name tariff_name full_name unit = tariff_name @ '' '' @ full_name @ '' ('' @ unit @ '')''"

text \<open>The body of the loop over \<open>usage_plan.report_cols\<close>.\<close>

definition add_energy_report ::
  "engine \<Rightarrow> string \<Rightarrow> timestamp list \<Rightarrow> PDColName \<Rightarrow> request \<Rightarrow> error + request" where
  "add_energy_report eng tariff_name tariff_idx column st =
     (if column \<in> {TIME, TARIFF, SUPPLY_CHARGE} then Inr st
      else
        let full_name = value_with_override (cls_col_overrides eng) column;
            full_name = report_name tariff_name full_name (cls_energy_unit eng);
            reg = register full_name (req_report_cols st)
        in bindE (loc_assign tariff_idx full_name (Col (col_value column)) (req_frame st))
             (\<lambda>df. Inr \<lparr>req_frame = df, req_report_cols = reg\<rparr>))"

definition add_energy_reports ::
  "engine \<Rightarrow> string \<Rightarrow> timestamp list \<Rightarrow> UsagePlan \<Rightarrow> request \<Rightarrow> error + request" where
  "add_energy_reports eng tariff_name tariff_idx usage_plan st =
     bindE (loc_assign tariff_idx (col_value TARIFF) (Lit (Str tariff_name)) (req_frame st))
       (\<lambda>df. foldE (add_energy_report eng tariff_name tariff_idx) (report_cols usage_plan)
                (st\<lparr>req_frame := df\<rparr>))"

text \<open>
  The body of the loop of \<open>SimpleAgent.usage\<close> over \<open>rates.items()\<close>.  A rate name that is
  still a string has no \<open>value_with_override\<close> (\<open>AttributeError\<close>).
\<close>

definition simple_agent_rate ::
  "engine \<Rightarrow> string \<Rightarrow> timestamp list \<Rightarrow> rate_name \<times> json_number \<Rightarrow> request
     \<Rightarrow> error + request" where
  "simple_agent_rate eng tariff_name tariff_idx item st =
     (case fst item of
        Raw s \<Rightarrow> Inl AttributeError
      | Sanitised energy_column \<Rightarrow>
          let rate = snd item;
              full_name = value_with_override (cls_col_overrides eng) energy_column;
              full_name = report_name tariff_name full_name (cls_cost_unit eng);
              reg = register full_name (req_report_cols st)
          in if energy_column = SUPPLY_CHARGE then
               bindE (loc_assign tariff_idx full_name (Lit (Num (rate_float rate))) (req_frame st))
                 (\<lambda>df. Inr \<lparr>req_frame = df, req_report_cols = reg\<rparr>)
             else if col_value energy_column \<notin> set (columns (req_frame st)) then Inl KeyError
             else
               bindE (loc_assign tariff_idx full_name (Times (Col (col_value energy_column)) rate)
                        (req_frame st))
                 (\<lambda>df. Inr \<lparr>req_frame = df, req_report_cols = reg\<rparr>))"

definition simple_agent_usage ::
  "engine \<Rightarrow> string \<Rightarrow> timestamp list \<Rightarrow> (rate_name, json_number) dict \<Rightarrow> request
     \<Rightarrow> error + request" where
  "simple_agent_usage eng tariff_name tariff_idx rates st =
     foldE (simple_agent_rate eng tariff_name tariff_idx) rates st"

section \<open>Calendar resolution (\<open>_apply_calendar\<close>, \<open>_process_periodic_data\<close>)\<close>

text \<open>
  The three masks of \<open>_apply_calendar\<close>, as lists of index labels.  The first compares
  the instants of the labels with the instants of the two bounds.
\<close>

definition season_index :: "zone \<Rightarrow> frame \<Rightarrow> datetime \<Rightarrow> datetime \<Rightarrow> timestamp list" where
  "season_index tz df season_start season_end =
     between_left (instant tz season_start) (instant tz season_end) (map stamp (rows df))"

definition day_index :: "TariffSchedule \<Rightarrow> timestamp list \<Rightarrow> timestamp list" where
  "day_index schedule season_idx = filter (\<lambda>t. dayofweek t \<in> days schedule) season_idx"

definition tariff_index :: "TariffSchedule \<Rightarrow> TariffPeriod \<Rightarrow> timestamp list \<Rightarrow> timestamp list" where
  "tariff_index schedule period day_idx =
     (if length (periods schedule) = 1 then day_idx
      else between_time_left (start period) (end_time period) day_idx)"

text \<open>The body of the loop over \<open>schedule.periods\<close>, and that of the loop over the schedules.\<close>

definition apply_period ::
  "engine \<Rightarrow> CalendarEntry \<Rightarrow> UsagePlan \<Rightarrow> TariffSchedule \<Rightarrow> timestamp list \<Rightarrow> TariffPeriod
     \<Rightarrow> request \<Rightarrow> error + request" where
  "apply_period eng entry usage_plan schedule day_idx period st =
     (let tariff_idx = tariff_index schedule period day_idx in
      if tariff_idx = [] then Inr st
      else
        bindE (add_energy_reports eng (tariff period) tariff_idx usage_plan st) (\<lambda>st1.
        bindE (getitem (tariffs entry) (tariff period)) (\<lambda>rates.
        simple_agent_usage eng (tariff period) tariff_idx rates st1)))"

definition apply_schedule ::
  "engine \<Rightarrow> CalendarEntry \<Rightarrow> UsagePlan \<Rightarrow> timestamp list \<Rightarrow> TariffSchedule
     \<Rightarrow> request \<Rightarrow> error + request" where
  "apply_schedule eng entry usage_plan season_idx schedule st =
     (let day_idx = day_index schedule season_idx in
      if day_idx = [] then Inr st
      else foldE (apply_period eng entry usage_plan schedule day_idx) (periods schedule) st)"

text \<open>
  \<open>_apply_calendar\<close>.  The index of the frame is in the engine's timezone; with no
  timezone set it is naive, and pandas raises \<open>TypeError\<close> when it compares it with the
  aware bounds.
\<close>

definition apply_calendar ::
  "engine \<Rightarrow> CalendarEntry \<Rightarrow> datetime \<Rightarrow> datetime \<Rightarrow> request \<Rightarrow> error + request" where
  "apply_calendar eng entry season_start season_end st =
     (case cls_timezone eng of
        None \<Rightarrow> Inl TypeError
      | Some tz \<Rightarrow>
          let season_idx = season_index tz (req_frame st) season_start season_end in
          if season_idx = [] then Inr st
          else
            bindE (getitem (cls_plans eng) (plan entry)) (\<lambda>usage_plan.
            bindE (getitem (seasons usage_plan) (season entry)) (\<lambda>schedules.
            foldE (apply_schedule eng entry usage_plan season_idx) (map snd schedules) st)))"

text \<open>
  The loop of \<open>_process_periodic_data\<close> over \<open>self._calendar.values()\<close>, with the call of
  \<open>_apply_calendar\<close> it makes for each sub-range as the parameter \<open>apply\<close>.  \<open>break\<close>
  returns the state, \<open>continue\<close> goes on with the entries left.
\<close>

fun process_entries ::
  "(CalendarEntry \<Rightarrow> datetime \<Rightarrow> datetime \<Rightarrow> 's \<Rightarrow> error + 's) \<Rightarrow> datetime
     \<Rightarrow> CalendarEntry list \<Rightarrow> datetime \<Rightarrow> 's \<Rightarrow> error + 's" where
  "process_entries apply range_stop [] season_start st = Inr st"
| "process_entries apply range_stop (entry # entries) season_start st =
     (if wall (start_date entry) \<ge> wall range_stop then Inr st
      else
        let season_start =
              (if wall season_start \<le> wall (start_date entry) then start_date entry
               else season_start)
        in
          if wall season_start \<ge> wall range_stop then Inr st
          else
            case end_date entry of
              Some entry_end \<Rightarrow>
                if wall season_start \<ge> wall entry_end then
                  process_entries apply range_stop entries season_start st
                else
                  let season_end =
                        (if wall range_stop > wall entry_end then entry_end else range_stop)
                  in bindE (apply entry season_start season_end st)
                       (process_entries apply range_stop entries season_end)
            | None \<Rightarrow>
                let season_end = range_stop
                in bindE (apply entry season_start season_end st)
                     (process_entries apply range_stop entries season_end))"

definition process_periodic_data ::
  "engine \<Rightarrow> datetime \<Rightarrow> datetime \<Rightarrow> request \<Rightarrow> error + request" where
  "process_periodic_data eng range_start range_stop st =
     process_entries (apply_calendar eng) range_stop (map snd (cls_calendar eng)) range_start st"

text \<open>
  The sub-ranges the loop emits: the arguments of its calls of \<open>_apply_calendar\<close>, in
  order, recorded by a callback that does nothing else.
\<close>

definition record_call ::
  "CalendarEntry \<Rightarrow> datetime \<Rightarrow> datetime \<Rightarrow> (CalendarEntry \<times> datetime \<times> datetime) list
     \<Rightarrow> error + (CalendarEntry \<times> datetime \<times> datetime) list" where
  "record_call entry season_start season_end calls = Inr (calls @ [(entry, season_start, season_end)])"

definition emitted ::
  "datetime \<Rightarrow> datetime \<Rightarrow> CalendarEntry list \<Rightarrow> (CalendarEntry \<times> datetime \<times> datetime) list" where
  "emitted range_start range_stop entries =
     (case process_entries record_call range_stop entries range_start [] of
        Inr calls \<Rightarrow> calls
      | Inl e \<Rightarrow> [])"

section \<open>Building the plans (\<open>UsagePlan.__init__\<close>, \<open>_init_seasons\<close>)\<close>

text \<open>
  The configuration file after \<open>simplejson.load\<close>, typed: a JSON object is a dictionary
  (distinct keys, in file order), a key that may be absent is an option.
\<close>

record schedule_json =
  json_schedule :: "string option"
  json_days :: "int list option"
  json_periods :: "(string, string) dict option"

record plan_json =
  json_name :: "string option"
  json_agent :: "string option"
  json_report :: "string list option"
  json_seasons :: "(string, schedule_json list) dict option"

record entry_json =
  json_plan :: "string option"
  json_season :: "string option"
  json_tariffs :: "(string, (string, json_number) dict) dict option"

text \<open>
  One \<open>TariffPeriod(tariff=this[1], start=time.fromisoformat(this[0]),
  end=time.fromisoformat(next[0]))\<close>.  Python's \<open>time.fromisoformat\<close> is the parameter
  \<open>parse\<close>: \<open>None\<close> where it raises \<open>ValueError\<close>.
\<close>

definition make_period ::
  "(string \<Rightarrow> time option) \<Rightarrow> string \<times> string \<Rightarrow> string \<times> string \<Rightarrow> error + TariffPeriod" where
  "make_period parse this next =
     (case parse (fst this) of
        None \<Rightarrow> Inl ValueError
      | Some s \<Rightarrow>
          (case parse (fst next) of
             None \<Rightarrow> Inl ValueError
           | Some e \<Rightarrow> Inr \<lparr>tariff = snd this, start = s, end_time = e\<rparr>))"

text \<open>\<open>itertools.pairwise\<close>.\<close>

definition pairwise :: "'a list \<Rightarrow> ('a \<times> 'a) list" where
  "pairwise xs = zip xs (tl xs)"

text \<open>
  The block of \<open>_init_seasons\<close> that builds the period list of one schedule from the
  items of its \<open>periods\<close> object: a period from each boundary to the next, then the
  last, which ends at the first boundary (at its own start when there is one boundary).
  \<open>list(...)[-1]\<close> on an empty object raises \<open>IndexError\<close>.
\<close>

definition make_periods ::
  "(string \<Rightarrow> time option) \<Rightarrow> (string, string) dict \<Rightarrow> error + TariffPeriod list" where
  "make_periods parse items =
     bindE (mapE (\<lambda>(this, next). make_period parse this next) (pairwise items)) (\<lambda>ps.
       if items = [] then Inl IndexError
       else
         let this = last items;
             next = (if length items = 1 then this else hd items)
         in bindE (make_period parse this next) (\<lambda>p. Inr (ps @ [p])))"

text \<open>
  The body of the loop over the schedules of one season: the keyword arguments, then
  \<open>dc_replace\<close> on the schedule of that name in the previous season when there is one,
  a new \<open>TariffSchedule\<close> otherwise (which needs both \<open>days\<close> and \<open>periods\<close>).
\<close>

definition init_schedule ::
  "(string \<Rightarrow> time option) \<Rightarrow> (string, TariffSchedule) dict option \<Rightarrow> schedule_json
     \<Rightarrow> (string, TariffSchedule) dict \<Rightarrow> error + (string, TariffSchedule) dict" where
  "init_schedule parse prev_season sj season_d =
     (case json_schedule sj of
        None \<Rightarrow> Inl KeyError
      | Some schedule_name \<Rightarrow>
          let kw_days = map_option set (json_days sj) in
          bindE (case json_periods sj of
                   None \<Rightarrow> Inr None
                 | Some items \<Rightarrow> bindE (make_periods parse items) (\<lambda>ps. Inr (Some ps)))
            (\<lambda>kw_periods.
               case (case prev_season of None \<Rightarrow> None | Some prev \<Rightarrow> map_of prev schedule_name) of
                 Some prev_schedule \<Rightarrow>
                   Inr (AList.update schedule_name
                          \<lparr>name = schedule_name,
                           days = (case kw_days of Some d \<Rightarrow> d | None \<Rightarrow> days prev_schedule),
                           periods = (case kw_periods of Some p \<Rightarrow> p | None \<Rightarrow> periods prev_schedule)\<rparr>
                          season_d)
               | None \<Rightarrow>
                   (case (kw_days, kw_periods) of
                      (Some d, Some p) \<Rightarrow>
                        Inr (AList.update schedule_name
                               \<lparr>name = schedule_name, days = d, periods = p\<rparr> season_d)
                    | _ \<Rightarrow> Inl ValueError)))"

text \<open>
  After the schedules of a season: every schedule of the previous season whose name the
  season does not have is copied into it.
\<close>

definition copy_unchanged ::
  "(string, TariffSchedule) dict \<Rightarrow> (string, TariffSchedule) dict \<Rightarrow> (string, TariffSchedule) dict" where
  "copy_unchanged prev season_d =
     fold (\<lambda>(schedule_name, schedule) acc.
             if schedule_name \<notin> fst ` set acc then AList.update schedule_name schedule acc else acc)
          prev season_d"

text \<open>The loop over the seasons of a plan, with the dictionary built so far.\<close>

fun init_season_loop ::
  "(string \<Rightarrow> time option) \<Rightarrow> (string \<times> schedule_json list) list
     \<Rightarrow> (string, TariffSchedule) dict option \<Rightarrow> (string, (string, TariffSchedule) dict) dict
     \<Rightarrow> error + (string, (string, TariffSchedule) dict) dict" where
  "init_season_loop parse [] prev_season acc = Inr acc"
| "init_season_loop parse ((season_name, schedules) # rest) prev_season acc =
     bindE (foldE (init_schedule parse prev_season) schedules []) (\<lambda>season_d.
       let season_d = (case prev_season of None \<Rightarrow> season_d
                       | Some prev \<Rightarrow> copy_unchanged prev season_d)
       in init_season_loop parse rest (Some season_d) (AList.update season_name season_d acc))"

definition init_seasons ::
  "(string \<Rightarrow> time option) \<Rightarrow> plan_json
     \<Rightarrow> error + (string, (string, TariffSchedule) dict) dict" where
  "init_seasons parse pj =
     (case json_seasons pj of
        None \<Rightarrow> Inl KeyError
      | Some seasons_json \<Rightarrow> init_season_loop parse seasons_json None [])"

text \<open>\<open>_get_agent\<close>: the agent class the plan names.\<close>

definition get_agent :: "plan_json \<Rightarrow> error + agent" where
  "get_agent pj =
     (case json_agent pj of
        None \<Rightarrow> Inl KeyError
      | Some agent_name \<Rightarrow> if agent_name = ''Simple'' then Inr SimpleAgent else Inl ValueError)"

text \<open>\<open>UsagePlan.__init__\<close>.\<close>

definition new_UsagePlan :: "(string \<Rightarrow> time option) \<Rightarrow> plan_json \<Rightarrow> error + UsagePlan" where
  "new_UsagePlan parse pj =
     (case json_name pj of
        None \<Rightarrow> Inl KeyError
      | Some plan_name_v \<Rightarrow>
          bindE (get_agent pj) (\<lambda>agent_v.
          bindE (case json_report pj of
                   None \<Rightarrow> Inl KeyError
                 | Some reports \<Rightarrow>
                     mapE (\<lambda>report. case from_str report of
                                       None \<Rightarrow> Inl ValueError
                                     | Some pd_col \<Rightarrow> Inr pd_col) reports) (\<lambda>cols.
          bindE (init_seasons parse pj) (\<lambda>seasons_v.
            Inr \<lparr>plan_name = plan_name_v, plan_agent = agent_v, report_cols = cols,
                 seasons = seasons_v\<rparr>))))"

text \<open>\<open>TariffSchedule.tariff_defined\<close>, \<open>UsagePlan.season_defined\<close> and \<open>UsagePlan.tariff_defined\<close>.\<close>

definition schedule_tariff_defined :: "TariffSchedule \<Rightarrow> string \<Rightarrow> bool" where
  "schedule_tariff_defined schedule tariff_name =
     list_ex (\<lambda>t_period. tariff t_period = tariff_name) (periods schedule)"

definition season_defined :: "UsagePlan \<Rightarrow> string \<Rightarrow> bool" where
  "season_defined usage_plan season_name = (season_name \<in> fst ` set (seasons usage_plan))"

definition tariff_defined :: "UsagePlan \<Rightarrow> string \<Rightarrow> string \<Rightarrow> bool" where
  "tariff_defined usage_plan season_name tariff_name =
     (case map_of (seasons usage_plan) season_name of
        None \<Rightarrow> False
      | Some schedules \<Rightarrow>
          list_ex (\<lambda>schedule. schedule_tariff_defined schedule tariff_name) (map snd schedules))"

section \<open>Building the calendar (\<open>CalendarEntry.__post_init__\<close>, \<open>_load_calendar\<close>)\<close>

text \<open>
  The loop of \<open>__post_init__\<close> over the items of one rate table, with the sanitised
  table built so far.  It stops (\<open>break\<close>) at a name that is a column name already.
\<close>

fun rate_table_loop ::
  "(rate_name \<times> json_number) list \<Rightarrow> (PDColName, json_number) dict
     \<Rightarrow> error + (PDColName, json_number) dict" where
  "rate_table_loop [] rate_table = Inr rate_table"
| "rate_table_loop ((Sanitised c, rate) # rest) rate_table = Inr rate_table"
| "rate_table_loop ((Raw rate_n, rate) # rest) rate_table =
     (case from_str rate_n of
        None \<Rightarrow> Inl ValueError
      | Some rate_label \<Rightarrow> rate_table_loop rest (AList.update rate_label rate rate_table))"

text \<open>
  The body of the loop \<open>for tariff in self.tariffs\<close>: the tariff must be defined for the
  entry's plan and season; its rate table is replaced by the sanitised one when that is
  not empty.
\<close>

definition validate_tariff ::
  "UsagePlan \<Rightarrow> string \<Rightarrow> string
     \<Rightarrow> (string, (rate_name, json_number) dict) dict
     \<Rightarrow> error + (string, (rate_name, json_number) dict) dict" where
  "validate_tariff usage_plan season_name tariff_name tariffs_d =
     (if \<not> tariff_defined usage_plan season_name tariff_name then Inl ValueError
      else
        bindE (getitem tariffs_d tariff_name) (\<lambda>rates.
        bindE (rate_table_loop rates []) (\<lambda>rate_table.
          if length rate_table > 0
          then Inr (AList.update tariff_name (map (\<lambda>(c, rate). (Sanitised c, rate)) rate_table) tariffs_d)
          else Inr tariffs_d)))"

definition post_init :: "(string, UsagePlan) dict \<Rightarrow> CalendarEntry \<Rightarrow> error + CalendarEntry" where
  "post_init plans_d entry =
     (case map_of plans_d (plan entry) of
        None \<Rightarrow> Inl ValueError
      | Some usage_plan \<Rightarrow>
          if \<not> season_defined usage_plan (season entry) then Inl ValueError
          else
            bindE (foldE (validate_tariff usage_plan (season entry))
                     (map fst (tariffs entry)) (tariffs entry))
              (\<lambda>tariffs_v. Inr (entry\<lparr>tariffs := tariffs_v\<rparr>)))"

text \<open>The rate tables of a configuration entry, as the entry first holds them.\<close>

definition raw_tariffs ::
  "(string, (string, json_number) dict) dict \<Rightarrow> (string, (rate_name, json_number) dict) dict" where
  "raw_tariffs t = map (\<lambda>(tariff_name, rates). (tariff_name, map (\<lambda>(n, rate). (Raw n, rate)) rates)) t"

text \<open>
  \<open>CalendarEntry(**kwargs)\<close> for the first entry: a missing field is a \<open>TypeError\<close>, and
  \<open>_load_calendar\<close> turns every exception of the construction into \<open>ValueError\<close>.
\<close>

definition first_entry :: "(string, UsagePlan) dict \<Rightarrow> datetime \<Rightarrow> entry_json \<Rightarrow> error + CalendarEntry" where
  "first_entry plans_d date_v data =
     (case (json_plan data, json_season data, json_tariffs data) of
        (Some p, Some s, Some t) \<Rightarrow>
          (case post_init plans_d
                  \<lparr>start_date = date_v, plan = p, season = s, tariffs = raw_tariffs t,
                   end_date = None\<rparr> of
             Inl e \<Rightarrow> Inl ValueError
           | Inr entry \<Rightarrow> Inr entry)
      | _ \<Rightarrow> Inl ValueError)"

text \<open>
  \<open>dc_replace(prev_event, **kwargs)\<close> for a later entry: the fields the configuration
  gives replace those of the previous entry, the others are kept; \<open>__post_init__\<close> runs
  on the result.
\<close>

definition replace_entry ::
  "(string, UsagePlan) dict \<Rightarrow> CalendarEntry \<Rightarrow> datetime \<Rightarrow> entry_json \<Rightarrow> error + CalendarEntry" where
  "replace_entry plans_d prev_event date_v data =
     post_init plans_d
       (prev_event
          \<lparr>start_date := date_v,
           plan := (case json_plan data of Some p \<Rightarrow> p | None \<Rightarrow> plan prev_event),
           season := (case json_season data of Some s \<Rightarrow> s | None \<Rightarrow> season prev_event),
           tariffs := (case json_tariffs data of Some t \<Rightarrow> raw_tariffs t
                       | None \<Rightarrow> tariffs prev_event)\<rparr>)"

text \<open>
  A class method that raises leaves the class variables as they are at the raise: such
  a method returns the exception, if any, and the state it leaves.
\<close>

type_synonym 's outcome = "error option \<times> 's"

text \<open>
  The loop of \<open>_load_calendar\<close> over the sorted entries: \<open>prev_event\<close> is \<open>None\<close> for the
  first entry; \<open>cal\<close> is \<open>cls._calendar\<close>.
\<close>

fun calendar_loop ::
  "(string, UsagePlan) dict \<Rightarrow> (datetime \<times> entry_json) list \<Rightarrow> CalendarEntry option
     \<Rightarrow> (datetime, CalendarEntry) dict \<Rightarrow> (datetime, CalendarEntry) dict outcome" where
  "calendar_loop plans_d [] prev_event cal = (None, cal)"
| "calendar_loop plans_d ((date_v, data) # rest) prev_event cal =
     (case (case prev_event of
              None \<Rightarrow> first_entry plans_d date_v data
            | Some prev \<Rightarrow> replace_entry plans_d prev date_v data) of
        Inl e \<Rightarrow> (Some e, cal)
      | Inr entry \<Rightarrow> calendar_loop plans_d rest (Some entry) (AList.update date_v entry cal))"

text \<open>The last loop of \<open>_load_calendar\<close>: each entry ends where the next starts.\<close>

fun set_end_dates :: "(datetime, CalendarEntry) dict \<Rightarrow> (datetime, CalendarEntry) dict" where
  "set_end_dates (this # next # rest) =
     (fst this, (snd this)\<lparr>end_date := Some (start_date (snd next))\<rparr>) # set_end_dates (next # rest)"
| "set_end_dates cal = cal"

text \<open>
  The dictionary of the entries by date, sorted.  \<open>parse\<close> is
  \<open>datetime.fromisoformat\<close>: the wall-clock fields the string gives, \<open>None\<close> where Python
  raises \<open>ValueError\<close>; \<open>replace(tzinfo=cls._timezone)\<close> drops the offset of the string,
  if any, and leaves \<open>fold\<close> at 0.  Two keys are equal when their wall-clock fields are.
\<close>

definition calendar_items ::
  "(string \<Rightarrow> int option) \<Rightarrow> (string, entry_json) dict \<Rightarrow> error + (datetime \<times> entry_json) list" where
  "calendar_items parse calendar_json =
     bindE (mapE (\<lambda>(d_str, item). case parse d_str of
                                      None \<Rightarrow> Inl ValueError
                                    | Some w \<Rightarrow> Inr (\<lparr>wall = w, fold_attr = False\<rparr>, item))
              calendar_json)
       (\<lambda>kvs. Inr (sort_key (\<lambda>kv. wall (fst kv)) (fold (\<lambda>(k, v). AList.update k v) kvs [])))"

definition load_calendar ::
  "(string \<Rightarrow> int option) \<Rightarrow> (string, entry_json) dict \<Rightarrow> engine \<Rightarrow> engine outcome" where
  "load_calendar parse calendar_json eng =
     (let eng1 = eng\<lparr>cls_calendar := []\<rparr> in
      case calendar_items parse calendar_json of
        Inl e \<Rightarrow> (Some e, eng1)
      | Inr items \<Rightarrow>
          (case calendar_loop (cls_plans eng1) items None [] of
             (Some e, cal) \<Rightarrow> (Some e, eng1\<lparr>cls_calendar := cal\<rparr>)
           | (None, cal) \<Rightarrow> (None, eng1\<lparr>cls_calendar := set_end_dates cal\<rparr>)))"

section \<open>Reloading the configuration (\<open>_init_settings\<close>, \<open>reload_config\<close>)\<close>

record settings_json =
  json_influx_url :: "string option"
  json_bucket :: "string option"
  json_timezone :: "string option"
  json_rename :: "(string, string) dict option"
  json_supply_priority :: "string list option"
  json_cost_unit :: "string option"
  json_energy_unit :: "string option"

record config =
  cfg_settings :: "settings_json option"
  cfg_plans :: "plan_json list option"
  cfg_calendar :: "(string, entry_json) dict option"

text \<open>
  What the engine calls outside the repository: Python's two \<open>fromisoformat\<close> parsers
  (the second gives the wall-clock fields of the datetime it returns), the timezone
  database (\<open>None\<close> for a key it does not know), the \<open>buckets()\<close> query of the data
  source, the reading of the configuration file, and the query for the rows between two
  instants, which come with their labels in UTC.
\<close>

record env =
  time_fromisoformat :: "string \<Rightarrow> time option"
  datetime_fromisoformat :: "string \<Rightarrow> int option"
  zone_info :: "string \<Rightarrow> zone option"
  query_buckets :: "error + string list"
  read_config :: "error + config"
  query_data_frame :: "string \<Rightarrow> int \<Rightarrow> int \<Rightarrow> error + frame"

text \<open>The loop of \<open>_init_settings\<close> over the \<open>rename\<close> items.\<close>

fun rename_loop :: "(string \<times> string) list \<Rightarrow> engine \<Rightarrow> engine outcome" where
  "rename_loop [] eng = (None, eng)"
| "rename_loop ((name_v, override) # rest) eng =
     (case from_str name_v of
        None \<Rightarrow> (Some ValueError, eng)
      | Some pd_name \<Rightarrow>
          rename_loop rest (eng\<lparr>cls_col_overrides := (cls_col_overrides eng)(pd_name \<mapsto> override)\<rparr>))"

definition init_settings :: "env \<Rightarrow> config \<Rightarrow> engine \<Rightarrow> engine outcome" where
  "init_settings ev cfg eng =
     (case cfg_settings cfg of
        None \<Rightarrow> (Some KeyError, eng)
      | Some settings \<Rightarrow>
     (case json_influx_url settings of
        None \<Rightarrow> (Some KeyError, eng)
      | Some url \<Rightarrow>
     let eng = eng\<lparr>cls_influx_client := Some url\<rparr> in
     (case json_bucket settings of
        None \<Rightarrow> (Some KeyError, eng)
      | Some bucket_v \<Rightarrow>
     let eng = eng\<lparr>cls_bucket := bucket_v\<rparr> in
     (case json_timezone settings of
        None \<Rightarrow> (Some KeyError, eng)
      | Some tz_key \<Rightarrow>
     (case zone_info ev tz_key of
        None \<Rightarrow> (Some KeyError, eng)
      | Some z \<Rightarrow>
     let eng = eng\<lparr>cls_timezone := Some z, cls_col_overrides := Map.empty\<rparr> in
     (case rename_loop (case json_rename settings of None \<Rightarrow> [] | Some items \<Rightarrow> items) eng of
        (Some e, eng) \<Rightarrow> (Some e, eng)
      | (None, eng) \<Rightarrow>
     (case query_buckets ev of
        Inl e \<Rightarrow> (Some e, eng)
      | Inr bucket_list \<Rightarrow>
     if cls_bucket eng \<notin> set bucket_list then (Some KeyError, eng\<lparr>cls_bucket := []\<rparr>)
     else
     let eng = eng\<lparr>cls_priority := DEFAULT_PRIORITY\<rparr> in
     (case init_priority (json_supply_priority settings) of
        Inl e \<Rightarrow> (Some e, eng)
      | Inr priority_v \<Rightarrow>
     (None, eng\<lparr>cls_priority := priority_v,
                cls_cost_unit := (case json_cost_unit settings of None \<Rightarrow> ''$'' | Some u \<Rightarrow> u),
                cls_energy_unit := (case json_energy_unit settings of None \<Rightarrow> ''kWh''
                                | Some u \<Rightarrow> u)\<rparr>)))))))))"

text \<open>The loop of \<open>reload_config\<close> over the plans of the configuration.\<close>

fun load_plans :: "env \<Rightarrow> plan_json list \<Rightarrow> engine \<Rightarrow> engine outcome" where
  "load_plans ev [] eng = (None, eng)"
| "load_plans ev (data # rest) eng =
     (case new_UsagePlan (time_fromisoformat ev) data of
        Inl e \<Rightarrow> (Some e, eng)
      | Inr usage_plan \<Rightarrow>
          load_plans ev rest (eng\<lparr>cls_plans := AList.update (plan_name usage_plan) usage_plan (cls_plans eng)\<rparr>))"

definition reload_config :: "env \<Rightarrow> engine \<Rightarrow> engine outcome" where
  "reload_config ev eng =
     (case read_config ev of
        Inl e \<Rightarrow> (Some e, eng)
      | Inr cfg \<Rightarrow>
     (case init_settings ev cfg eng of
        (Some e, eng) \<Rightarrow> (Some e, eng)
      | (None, eng) \<Rightarrow>
     (case cfg_plans cfg of
        None \<Rightarrow> (Some KeyError, eng)
      | Some plans_json \<Rightarrow>
     (case load_plans ev plans_json (eng\<lparr>cls_plans := []\<rparr>) of
        (Some e, eng) \<Rightarrow> (Some e, eng)
      | (None, eng) \<Rightarrow>
     (case cfg_calendar cfg of
        None \<Rightarrow> (Some KeyError, eng)
      | Some calendar_json \<Rightarrow> load_calendar (datetime_fromisoformat ev) calendar_json eng)))))"

section \<open>A request (\<open>safe_iso_utc_to_dt\<close>, \<open>_get_influx_data\<close>, \<open>usage\<close>)\<close>

text \<open>
  \<open>safe_iso_utc_to_dt\<close>.  \<open>iso_utc[-1]\<close> raises \<open>IndexError\<close> on the empty string;
  \<open>parse\<close> is \<open>datetime.fromisoformat\<close>, whose result is given the timezone UTC with its
  wall-clock fields unchanged, so these fields are the instant.  Without a new timezone
  the datetime stays in UTC.
\<close>

definition safe_iso_utc_to_dt ::
  "(string \<Rightarrow> int option) \<Rightarrow> string \<Rightarrow> zone option \<Rightarrow> error + datetime" where
  "safe_iso_utc_to_dt parse iso_utc new_tz =
     (if iso_utc = [] then Inl IndexError
      else if last iso_utc \<noteq> CHR ''Z'' then Inl ValueError
      else
        case parse (butlast iso_utc) of
          None \<Rightarrow> Inl ValueError
        | Some u \<Rightarrow>
            (case new_tz of
               None \<Rightarrow> Inr \<lparr>wall = u, fold_attr = False\<rparr>
             | Some tz \<Rightarrow> astimezone tz u))"

text \<open>
  The content of a usage request after \<open>simplejson.loads\<close>, typed: the range object and
  its two strings may be absent (\<open>KeyError\<close>).
\<close>

record range_json =
  json_from :: "string option"
  json_to :: "string option"

record request_content =
  json_range :: "range_json option"

definition INFLUX_TO_PANDAS :: "(string, string) dict" where
  "INFLUX_TO_PANDAS =
     [(''from_grid'', col_value GRID_SUPPLY), (''to_grid'', col_value GRID_EXPORT),
      (''from_pw'', col_value PW_SUPPLY), (''solar'', col_value SOLAR_SUPPLY),
      (''home'', col_value HOME_DEMAND)]"

text \<open>\<open>df.rename(columns=mapper)\<close>: each column that the mapper knows gets its new name.\<close>

definition rename_columns :: "(string, string) dict \<Rightarrow> frame \<Rightarrow> frame" where
  "rename_columns mapper df =
     (let new_name = (\<lambda>c. case map_of mapper c of Some n \<Rightarrow> n | None \<Rightarrow> c) in
      \<lparr>columns = map new_name (columns df),
       rows = map (\<lambda>r. r\<lparr>cells := (\<lambda>c'. case find (\<lambda>c. new_name c = c') (columns df) of
                                               Some c \<Rightarrow> cells r c
                                             | None \<Rightarrow> cells r c')\<rparr>) (rows df)\<rparr>)"

text \<open>
  \<open>_get_influx_data\<close>: the rows between the instants of the two bounds, sorted by
  their labels, the index converted to the engine's timezone (with no timezone the
  bounds are in UTC and the index keeps the clock of UTC), the columns renamed.
\<close>

definition get_influx_data :: "env \<Rightarrow> engine \<Rightarrow> datetime \<Rightarrow> datetime \<Rightarrow> error + frame" where
  "get_influx_data ev eng range_start range_stop =
     (let to_utc = (case cls_timezone eng of None \<Rightarrow> wall | Some tz \<Rightarrow> instant tz);
          convert = (case cls_timezone eng of
                       None \<Rightarrow> (\<lambda>t. t\<lparr>local_wall := utc_value t\<rparr>)
                     | Some tz \<Rightarrow> tz_convert tz)
      in bindE (query_data_frame ev (cls_bucket eng) (to_utc range_start) (to_utc range_stop))
           (\<lambda>df. Inr (rename_columns INFLUX_TO_PANDAS
                         (df\<lparr>rows := map (\<lambda>r. r\<lparr>stamp := convert (stamp r)\<rparr>)
                                        (sort_key (\<lambda>r. utc_value (stamp r)) (rows df))\<rparr>))))"

text \<open>
  \<open>usage\<close>, up to the frame and the registry that \<open>_frame_to_json_tables\<close> then writes
  out.
\<close>

definition usage :: "env \<Rightarrow> engine \<Rightarrow> request_content \<Rightarrow> error + request" where
  "usage ev eng content =
     (case json_range content of
        None \<Rightarrow> Inl KeyError
      | Some range_v \<Rightarrow>
     (case json_from range_v of
        None \<Rightarrow> Inl KeyError
      | Some from_v \<Rightarrow>
     bindE (safe_iso_utc_to_dt (datetime_fromisoformat ev) from_v (cls_timezone eng)) (\<lambda>range_start.
     (case json_to range_v of
        None \<Rightarrow> Inl KeyError
      | Some to_v \<Rightarrow>
     bindE (safe_iso_utc_to_dt (datetime_fromisoformat ev) to_v (cls_timezone eng)) (\<lambda>range_stop.
     bindE (get_influx_data ev eng range_start range_stop) (\<lambda>df.
     bindE (core_usage (cls_priority eng) df) (\<lambda>df1.
     process_periodic_data eng range_start range_stop
       \<lparr>req_frame = df1, req_report_cols = []\<rparr>)))))))"

section \<open>Vocabulary of the properties\<close>

text \<open>
  The masks of one call of \<open>_apply_calendar\<close>: the mask of every period of every
  schedule of the entry's plan and season (none when the plan or the season is not
  there), on the rows of a frame; and the masks of a request, those of every call the
  loop of \<open>_process_periodic_data\<close> makes.  They depend on the index of the frame only.
\<close>

definition schedule_masks :: "TariffSchedule \<Rightarrow> timestamp list \<Rightarrow> timestamp list list" where
  "schedule_masks schedule season_idx =
     map (\<lambda>period. tariff_index schedule period (day_index schedule season_idx))
       (periods schedule)"

definition entry_masks ::
  "engine \<Rightarrow> frame \<Rightarrow> CalendarEntry \<times> datetime \<times> datetime \<Rightarrow> timestamp list list" where
  "entry_masks eng df c =
     (case cls_timezone eng of
        None \<Rightarrow> []
      | Some tz \<Rightarrow>
     (case map_of (cls_plans eng) (plan (fst c)) of
        None \<Rightarrow> []
      | Some usage_plan \<Rightarrow>
          (case map_of (seasons usage_plan) (season (fst c)) of
             None \<Rightarrow> []
           | Some schedules \<Rightarrow>
               concat (map (\<lambda>schedule.
                         schedule_masks schedule (season_index tz df (fst (snd c)) (snd (snd c))))
                       (map snd schedules)))))"

definition request_masks :: "engine \<Rightarrow> frame \<Rightarrow> datetime \<Rightarrow> datetime \<Rightarrow> timestamp list list" where
  "request_masks eng df range_start range_stop =
     concat (map (entry_masks eng df)
               (emitted range_start range_stop (map snd (cls_calendar eng))))"

text \<open>
  A frame \<open>df'\<close> keeps the rows of \<open>df\<close> outside the labels \<open>T\<close>: it has the same index
  and at least the columns of \<open>df\<close>, and every row whose label is not in \<open>T\<close> has its
  cells of \<open>df\<close> in the columns of \<open>df\<close> and NaN in every other column.
\<close>

definition kept :: "timestamp set \<Rightarrow> frame \<Rightarrow> frame \<Rightarrow> bool" where
  "kept T df df' \<longleftrightarrow>
     map stamp (rows df') = map stamp (rows df)
     \<and> set (columns df) \<subseteq> set (columns df')
     \<and> (\<forall>k<length (rows df). stamp (rows df ! k) \<notin> T \<longrightarrow>
          (\<forall>c\<in>set (columns df). cells (rows df' ! k) c = cells (rows df ! k) c)
          \<and> (\<forall>c\<in>set (columns df'). c \<notin> set (columns df) \<longrightarrow> cells (rows df' ! k) c = NaN))"







definition sub_range_instants :: "zone \<Rightarrow> CalendarEntry \<times> datetime \<times> datetime \<Rightarrow> int set" where
  "sub_range_instants tz c = {instant tz (fst (snd c))..<instant tz (snd (snd c))}"

text \<open>
  The boundaries of a schedule are in cyclic order when some rotation of their list is
  strictly ascending: they ascend from one of them on, wrapping at the end of the list.
\<close>

definition cyclically_ascending :: "time list \<Rightarrow> bool" where
  "cyclically_ascending bs = list_ex (\<lambda>k. sorted_wrt (<) (rotate k bs)) [0..<length bs]"

section \<open>Example configurations\<close>

text \<open>
  A schedule for every day of the week with the one period \<open>flat\<close>, as \<open>_init_seasons\<close>
  builds it from \<open>{"14:00": "flat"}\<close>: the period starts and ends at 14:00.
\<close>

definition flat_schedule :: TariffSchedule where
  "flat_schedule =
     \<lparr>name = ''all week'', days = {0, 1, 2, 3, 4, 5, 6},
      periods = [\<lparr>tariff = ''flat'', start = 50400000000, end_time = 50400000000\<rparr>]\<rparr>"

text \<open>
  \<open>time.fromisoformat\<close> on the strings \<open>HH:MM\<close>, which is all the examples need (Python
  accepts more forms).
\<close>

definition digit :: "char \<Rightarrow> nat option" where
  "digit c = (let n = of_char c :: nat in if 48 \<le> n \<and> n \<le> 57 then Some (n - 48) else None)"

definition hhmm :: "string \<Rightarrow> time option" where
  "hhmm s =
     (case s of
        [h1, h2, sep, m1, m2] \<Rightarrow>
          (case (digit h1, digit h2, digit m1, digit m2) of
             (Some a, Some b, Some c, Some d) \<Rightarrow>
               if sep = CHR '':'' \<and> 10 * a + b < 24 \<and> 10 * c + d < 60
               then Some (((10 * a + b) * 60 + (10 * c + d)) * 60000000)
               else None
           | _ \<Rightarrow> None)
      | _ \<Rightarrow> None)"

text \<open>
  Scenario B of the specification: peak from 14:00 to 20:00, off-peak otherwise, on
  weekdays; and a schedule whose boundaries are not in order.
\<close>

definition peak_items :: "(string, string) dict" where
  "peak_items = [(''14:00'', ''peak''), (''20:00'', ''off-peak'')]"

definition peak_schedule :: TariffSchedule where
  "peak_schedule =
     \<lparr>name = ''weekdays'', days = {0, 1, 2, 3, 4},
      periods = [\<lparr>tariff = ''peak'', start = 50400000000, end_time = 72000000000\<rparr>,
                 \<lparr>tariff = ''off-peak'', start = 72000000000, end_time = 50400000000\<rparr>]\<rparr>"

definition unordered_items :: "(string, string) dict" where
  "unordered_items = [(''00:00'', ''night''), (''20:00'', ''evening''), (''14:00'', ''peak'')]"

definition unordered_schedule :: TariffSchedule where
  "unordered_schedule =
     \<lparr>name = ''weekdays'', days = {0, 1, 2, 3, 4},
      periods = [\<lparr>tariff = ''night'', start = 0, end_time = 72000000000\<rparr>,
                 \<lparr>tariff = ''evening'', start = 72000000000, end_time = 50400000000\<rparr>,
                 \<lparr>tariff = ''peak'', start = 50400000000, end_time = 0\<rparr>]\<rparr>"

text \<open>
  A calendar of two entries, as \<open>_load_calendar\<close> leaves it: plan \<open>P\<close> in season
  \<open>Summer\<close> from time 0, and in season \<open>Winter\<close> from time 100 on.
\<close>

definition local_dt :: "int \<Rightarrow> datetime" where
  "local_dt w = \<lparr>wall = w, fold_attr = False\<rparr>"



text \<open>
  Two zones: UTC, and a zone with the one transition Australia/Sydney made on
  2023-04-02, when at 16:00 UTC of the day before its offset went from 11 hours to 10
  and the local hour from 02:00 to 03:00 was repeated.  \<open>sydney_entry\<close> is a calendar
  entry that starts on 2023-01-01T00:00 local time and has no end.
\<close>

definition utc_zone :: zone where
  "utc_zone = \<lparr>utcoffset = (\<lambda>dt. 0), fromutc = local_dt\<rparr>"



text \<open>
  Scenario A of the specification, on weekdays only: plan \<open>P\<close> reports grid to home, its
  season \<open>Summer\<close> has one schedule with the one period \<open>flat\<close>, and the calendar has one
  entry with the rate 0.25 for grid to home.  The frame has a row on Monday 1970-01-05
  and a row on Saturday 1970-01-03.
\<close>

definition weekday_flat :: TariffSchedule where
  "weekday_flat =
     \<lparr>name = ''weekdays'', days = {0, 1, 2, 3, 4},
      periods = [\<lparr>tariff = ''flat'', start = 0, end_time = 0\<rparr>]\<rparr>"

definition flat_plan :: UsagePlan where
  "flat_plan =
     \<lparr>plan_name = ''P'', plan_agent = SimpleAgent, report_cols = [GRID_TO_HOME],
      seasons = [(''Summer'', [(''weekdays'', weekday_flat)])]\<rparr>"

definition flat_entry :: CalendarEntry where
  "flat_entry =
     \<lparr>start_date = local_dt 0, plan = ''P'', season = ''Summer'',
      tariffs = [(''flat'', [(Sanitised GRID_TO_HOME, JFloat (1 / 4))])], end_date = None\<rparr>"

definition flat_engine :: engine where
  "flat_engine =
     \<lparr>cls_influx_client = Some ''http://influxdb:8086'', cls_timezone = Some utc_zone,
      cls_bucket = ''powerwall'', cls_priority = DEFAULT_PRIORITY,
      cls_plans = [(''P'', flat_plan)], cls_calendar = [(local_dt 0, flat_entry)],
      cls_col_overrides = Map.empty, cls_cost_unit = ''$'', cls_energy_unit = ''kWh''\<rparr>"

definition week_frame :: frame where
  "week_frame =
     \<lparr>columns = influx_columns,
      rows = [flow_row (utc_stamp 345600000000) 10 4 3 2,
              flow_row (utc_stamp 172800000000) 10 4 3 2]\<rparr>"

section \<open>Basic lemmas\<close>

lemma bindE_Inr_iff: "bindE m f = Inr z \<longleftrightarrow> (\<exists>v. m = Inr v \<and> f v = Inr z)"
  by (cases m) auto

lemma bindE_Inl_iff: "bindE m f = Inl e \<longleftrightarrow> m = Inl e \<or> (\<exists>v. m = Inr v \<and> f v = Inl e)"
  by (cases m) auto

lemma mapE_Inr_length: "mapE f xs = Inr ys \<Longrightarrow> length ys = length xs"
  by (induction xs arbitrary: ys) (auto simp: bindE_Inr_iff)

lemma mapE_Inr_nth: "mapE f xs = Inr ys \<Longrightarrow> i < length xs \<Longrightarrow> f (xs ! i) = Inr (ys ! i)"
proof (induction xs arbitrary: ys i)
  case Nil
  then show ?case by simp
next
  case (Cons x xs)
  from Cons.prems(1) obtain y ys' where y: "f x = Inr y" and ys': "mapE f xs = Inr ys'"
    and ys: "ys = y # ys'"
    by (auto simp: bindE_Inr_iff)
  show ?case
  proof (cases i)
    case 0
    then show ?thesis using y ys by simp
  next
    case (Suc j)
    then show ?thesis using Cons.IH [OF ys', of j] Cons.prems(2) ys by simp
  qed
qed

lemma mapE_total: "(\<And>x. x \<in> set xs \<Longrightarrow> \<exists>y. f x = Inr y) \<Longrightarrow> \<exists>ys. mapE f xs = Inr ys"
proof (induction xs)
  case Nil
  then show ?case by simp
next
  case (Cons x xs)
  then obtain y where "f x = Inr y" by force
  moreover from Cons obtain ys where "mapE f xs = Inr ys" by force
  ultimately show ?case by simp
qed

lemma assign_columns: "assign c e df = Inr df' \<Longrightarrow> columns df' = add_column c (columns df)"
  by (auto simp: assign_def bindE_Inr_iff split: if_splits)

lemma assign_length: "assign c e df = Inr df' \<Longrightarrow> length (rows df') = length (rows df)"
  by (auto simp: assign_def bindE_Inr_iff dest: mapE_Inr_length split: if_splits)

lemma assign_nth:
  assumes "assign c e df = Inr df'" and "i < length (rows df)"
  shows "assign_row c e (rows df ! i) = Inr (rows df' ! i)"
proof -
  from assms(1) obtain vs where vs: "mapE (eval e) (rows df) = Inr vs"
    and df': "rows df' = map2 (put c) vs (rows df)"
    by (auto simp: assign_def bindE_Inr_iff split: if_splits)
  have len: "length vs = length (rows df)" using vs by (rule mapE_Inr_length)
  have "eval e (rows df ! i) = Inr (vs ! i)" using vs assms(2) by (rule mapE_Inr_nth)
  then show ?thesis using df' len assms(2) by (simp add: assign_row_def)
qed

lemma allocate_length:
  "allocate ss i l df = Inr df' \<Longrightarrow> length (rows df') = length (rows df)"
proof (induction ss arbitrary: i l df)
  case Nil
  then show ?case by simp
next
  case (Cons s ss)
  then show ?case
    by (auto simp: bindE_Inr_iff Let_def split: if_splits option.splits dest!: assign_length)
qed

lemma allocate_nth:
  "allocate ss i l df = Inr df' \<Longrightarrow> k < length (rows df) \<Longrightarrow>
     allocate_row ss i l (rows df ! k) = Inr (rows df' ! k)"
proof (induction ss arbitrary: i l df)
  case Nil
  then show ?case by simp
next
  case (Cons s ss)
  from Cons.prems(1) obtain df1 d df2 where
    a1: "assign (col_value (RESIDUALS ! i))
           (ClipLower0 (Sub (Col (col_value l)) (Col (col_value s)))) df = Inr df1"
    and d: "SUPPLY_TO_DEMAND s = Some d"
    and a2: "assign (col_value d)
           (Sub (Col (col_value l)) (Col (col_value (RESIDUALS ! i)))) df1 = Inr df2"
    and rest: "allocate ss (i + 1) (RESIDUALS ! i) df2 = Inr df'"
    and i: "\<not> length RESIDUALS \<le> i"
    by (auto simp: bindE_Inr_iff Let_def split: if_splits option.splits)
  have k1: "k < length (rows df1)" using assign_length [OF a1] Cons.prems(2) by simp
  have k2: "k < length (rows df2)" using assign_length [OF a2] k1 by simp
  show ?case
    using assign_nth [OF a1 Cons.prems(2)] assign_nth [OF a2 k1] Cons.IH [OF rest k2] d i
    by (simp add: Let_def)
qed

lemma core_usage_length:
  "core_usage p df = Inr df' \<Longrightarrow> length (rows df') = length (rows df)"
  by (auto simp: core_usage_def bindE_Inr_iff dest!: assign_length allocate_length)

lemma core_usage_nth:
  assumes "core_usage p df = Inr df'" and "k < length (rows df)"
  shows "core_usage_row p (rows df ! k) = Inr (rows df' ! k)"
proof -
  from assms(1) obtain d1 d2 d3 d4 d5 where
    s0: "allocate p 0 HOME_DEMAND df = Inr d1"
    and s1: "assign (col_value GRID_CHARGING)
              (Sub (Col (col_value GRID_SUPPLY)) (Col (col_value GRID_TO_HOME))) d1 = Inr d2"
    and s2: "assign (col_value SELF_PW_NET_OF_GRID)
              (Sub (Col (col_value PW_TO_HOME)) (Col (col_value GRID_CHARGING))) d2 = Inr d3"
    and s3: "assign (col_value SELF_SOLAR_PLUS_RES)
              (Add (Col (col_value SOLAR_TO_HOME)) (Col (col_value RESIDUAL_DEMAND_FINAL))) d3 = Inr d4"
    and s4: "assign (col_value SELF_TOTAL)
              (Add (Col (col_value PW_TO_HOME)) (Col (col_value SELF_SOLAR_PLUS_RES))) d4 = Inr d5"
    and s5: "assign (col_value TARIFF) (Lit (Str ''None'')) d5 = Inr df'"
    unfolding core_usage_def bindE_Inr_iff by blast
  have k1: "k < length (rows d1)" using allocate_length [OF s0] assms(2) by simp
  have k2: "k < length (rows d2)" using assign_length [OF s1] k1 by simp
  have k3: "k < length (rows d3)" using assign_length [OF s2] k2 by simp
  have k4: "k < length (rows d4)" using assign_length [OF s3] k3 by simp
  have k5: "k < length (rows d5)" using assign_length [OF s4] k4 by simp
  show ?thesis
    unfolding core_usage_row_def
    using allocate_nth [OF s0 assms(2)] assign_nth [OF s1 k1] assign_nth [OF s2 k2]
      assign_nth [OF s3 k3] assign_nth [OF s4 k4] assign_nth [OF s5 k5]
    by simp
qed


section \<open>Rounding to float64\<close>

lemma rne_int [simp]: "rne (of_int n) = n"
  by (simp add: rne_def)

lemma rne_zero [simp]: "rne 0 = 0"
  using rne_int [of 0] by simp

lemma rne_upper: "of_int (rne y) \<le> y + 1/2"
  unfolding rne_def Let_def by (auto; linarith)

lemma rne_lower: "y - 1/2 \<le> of_int (rne y)"
  unfolding rne_def Let_def by (auto; linarith)

lemma rne_err: "\<bar>of_int (rne y) - y\<bar> \<le> 1/2"
  using rne_upper [of y] rne_lower [of y] by linarith

lemma rne_mono: assumes "x \<le> y" shows "rne x \<le> rne y"
proof (rule ccontr)
  assume "\<not> rne x \<le> rne y"
  then have "rne y + 1 \<le> rne x" by simp
  then have "(of_int (rne y) :: real) + 1 \<le> of_int (rne x)" by linarith
  with rne_upper [of x] rne_lower [of y] have "y \<le> x" by linarith
  with assms have "x = y" by simp
  with \<open>\<not> rne x \<le> rne y\<close> show False by simp
qed


lemma rne_le: "y \<le> of_int n \<Longrightarrow> rne y \<le> n"
  using rne_mono [of y "of_int n"] by simp

lemma rne_ge: "of_int n \<le> y \<Longrightarrow> n \<le> rne y"
  using rne_mono [of "of_int n" y] by simp

lemma two_powr_int: "(2::real) powr of_int (int n) = 2 ^ n"
  by (simp add: powr_realpow)

lemma two_powr_mono: "a \<le> b \<Longrightarrow> (2::real) powr of_int a \<le> 2 powr of_int b"
  by simp

lemma ulp_pos [simp]: "0 < ulp x"
  by (simp add: ulp_def)

lemma ulp_nz [simp]: "ulp x \<noteq> 0"
  using ulp_pos [of x] by linarith

lemma ulp_scale: "2 powr of_int (binade x - 52 + int n) = ulp x * 2 ^ n"
  by (simp only: of_int_add powr_add two_powr_int ulp_def)

lemma two_powr_binade: "2 powr of_int (binade x) = ulp x * 2 ^ 52"
  using ulp_scale [of x 52] by simp

lemma two_powr_binade_Suc: "2 powr of_int (binade x + 1) = ulp x * 2 ^ 53"
proof -
  have "binade x + 1 = binade x - 52 + int 53" by simp
  then show ?thesis using ulp_scale [of x 53] by (simp add: add.commute)
qed

lemma binade_ge: "- 1022 \<le> binade x"
  by (simp add: binade_def)

lemma floor_log_le:
  assumes "x \<noteq> 0" shows "2 powr of_int \<lfloor>log 2 \<bar>x\<bar>\<rfloor> \<le> \<bar>x\<bar>"
proof -
  from assms have pos: "0 < \<bar>x\<bar>" by simp
  have "(of_int \<lfloor>log 2 \<bar>x\<bar>\<rfloor> \<le> log 2 \<bar>x\<bar>) = (2 powr of_int \<lfloor>log 2 \<bar>x\<bar>\<rfloor> \<le> \<bar>x\<bar>)"
    using pos by (intro le_log_iff) auto
  then show ?thesis by simp
qed

lemma abs_less_binade: "\<bar>x\<bar> < 2 powr of_int (binade x + 1)"
proof (cases "x = 0")
  case True then show ?thesis by simp
next
  case False
  then have pos: "0 < \<bar>x\<bar>" by simp
  have "log 2 \<bar>x\<bar> < of_int (\<lfloor>log 2 \<bar>x\<bar>\<rfloor> + 1)" by linarith
  also have "\<dots> \<le> of_int (binade x + 1)" using False by (simp add: binade_def)
  finally have "log 2 \<bar>x\<bar> < of_int (binade x + 1)" .
  moreover have "(log 2 \<bar>x\<bar> < of_int (binade x + 1)) = (\<bar>x\<bar> < 2 powr of_int (binade x + 1))"
    using pos by (intro log_less_iff) auto
  ultimately show ?thesis by simp
qed

lemma binade_unclamped:
  assumes "- 1022 < binade x"
  shows "2 powr of_int (binade x) \<le> \<bar>x\<bar>"
proof -
  have nz: "x \<noteq> 0" using assms by (auto simp: binade_def)
  with assms have b: "binade x = \<lfloor>log 2 \<bar>x\<bar>\<rfloor>" by (simp add: binade_def max_def split: if_splits)
  show ?thesis unfolding b using nz by (rule floor_log_le)
qed

lemma binade_mono_abs:
  assumes "\<bar>x\<bar> \<le> \<bar>y\<bar>" shows "binade x \<le> binade y"
proof (cases "x = 0")
  case True
  then show ?thesis by (simp add: binade_def)
next
  case False
  with assms have "0 < \<bar>x\<bar>" "0 < \<bar>y\<bar>" by auto
  with assms have "log 2 \<bar>x\<bar> \<le> log 2 \<bar>y\<bar>" by simp
  then have "\<lfloor>log 2 \<bar>x\<bar>\<rfloor> \<le> \<lfloor>log 2 \<bar>y\<bar>\<rfloor>" by (rule floor_mono)
  then show ?thesis using False \<open>0 < \<bar>y\<bar>\<close> by (auto simp: binade_def)
qed

text \<open>The scaled argument of the rounding lies within 53 bits.\<close>

lemma scaled_bounds: "- (2 ^ 53) < x / ulp x" "x / ulp x < 2 ^ 53"
proof -
  have "\<bar>x\<bar> < ulp x * 2 ^ 53" using abs_less_binade [of x] by (simp only: two_powr_binade_Suc)
  then have "x < 2 ^ 53 * ulp x" "- (2 ^ 53) * ulp x < x" by (auto simp: mult.commute)
  then show "- (2 ^ 53) < x / ulp x" "x / ulp x < 2 ^ 53"
    by (simp_all add: pos_less_divide_eq pos_divide_less_eq)
qed

lemma rne_scaled_bounds: "- (2 ^ 53) \<le> rne (x / ulp x)" "rne (x / ulp x) \<le> 2 ^ 53"
proof -
  have "of_int (- (2 ^ 53)) \<le> x / ulp x" using scaled_bounds(1) [of x] by simp
  then show "- (2 ^ 53) \<le> rne (x / ulp x)" by (rule rne_ge)
  have "x / ulp x \<le> of_int (2 ^ 53)" using scaled_bounds(2) [of x] by simp
  then show "rne (x / ulp x) \<le> 2 ^ 53" by (rule rne_le)
qed

lemma of_int_le_mult:
  fixes u :: real
  assumes "m \<le> n" "0 < u" shows "of_int m * u \<le> of_int n * u"
  using assms by (simp add: mult_right_mono)

lemma round64_upper: "round64 x \<le> 2 powr of_int (binade x + 1)"
  unfolding round64_def two_powr_binade_Suc
  using of_int_le_mult [OF rne_scaled_bounds(2) [of x] ulp_pos [of x]] by (simp add: mult.commute)

lemma round64_lower: "- (2 powr of_int (binade x + 1)) \<le> round64 x"
  unfolding round64_def two_powr_binade_Suc
  using of_int_le_mult [OF rne_scaled_bounds(1) [of x] ulp_pos [of x]] by (simp add: mult.commute)

lemma round64_ge_binade:
  assumes "2 powr of_int (binade x) \<le> x"
  shows "2 powr of_int (binade x) \<le> round64 x"
proof -
  from assms have "2 ^ 52 * ulp x \<le> x" by (simp add: two_powr_binade mult.commute)
  then have "of_int (2 ^ 52) \<le> x / ulp x" by (simp add: pos_le_divide_eq)
  then have "2 ^ 52 \<le> rne (x / ulp x)" by (rule rne_ge)
  from of_int_le_mult [OF this ulp_pos [of x]] show ?thesis
    unfolding round64_def two_powr_binade by (simp add: mult.commute)
qed

lemma round64_le_binade:
  assumes "x \<le> - (2 powr of_int (binade x))"
  shows "round64 x \<le> - (2 powr of_int (binade x))"
proof -
  from assms have "x \<le> - (2 ^ 52) * ulp x" by (simp add: two_powr_binade mult.commute)
  then have "x / ulp x \<le> of_int (- (2 ^ 52))" by (simp add: pos_divide_le_eq)
  then have "rne (x / ulp x) \<le> - (2 ^ 52)" by (rule rne_le)
  from of_int_le_mult [OF this ulp_pos [of x]] show ?thesis
    unfolding round64_def two_powr_binade by (simp add: mult.commute)
qed

lemma round64_mono:
  assumes "x \<le> y" shows "round64 x \<le> round64 y"
proof -
  consider "binade x = binade y" | "binade x < binade y" | "binade y < binade x" by linarith
  then show ?thesis
  proof cases
    case 1
    then have u: "ulp x = ulp y" by (simp add: ulp_def)
    have "x / ulp y \<le> y / ulp y"
      using assms less_imp_le [OF ulp_pos [of y]] by (rule divide_right_mono)
    then have "rne (x / ulp y) \<le> rne (y / ulp y)" by (rule rne_mono)
    then show ?thesis unfolding round64_def u by (simp add: mult_right_mono)
  next
    case 2
    then have unc: "- 1022 < binade y" using binade_ge [of x] by linarith
    have "\<not> \<bar>y\<bar> \<le> \<bar>x\<bar>" using 2 binade_mono_abs [of y x] by auto
    with assms have "0 < y" by linarith
    with binade_unclamped [OF unc] have "2 powr of_int (binade y) \<le> round64 y"
      by (intro round64_ge_binade) simp
    moreover have "round64 x \<le> 2 powr of_int (binade x + 1)" by (rule round64_upper)
    moreover have "(2::real) powr of_int (binade x + 1) \<le> 2 powr of_int (binade y)"
      using 2 by (intro two_powr_mono) simp
    ultimately show ?thesis by linarith
  next
    case 3
    then have unc: "- 1022 < binade x" using binade_ge [of y] by linarith
    have "\<not> \<bar>x\<bar> \<le> \<bar>y\<bar>" using 3 binade_mono_abs [of x y] by auto
    with assms have "x < 0" by linarith
    with binade_unclamped [OF unc] have "round64 x \<le> - (2 powr of_int (binade x))"
      by (intro round64_le_binade) simp
    moreover have "- (2 powr of_int (binade y + 1)) \<le> round64 y" by (rule round64_lower)
    moreover have "(2::real) powr of_int (binade y + 1) \<le> 2 powr of_int (binade x)"
      using 3 by (intro two_powr_mono) simp
    ultimately show ?thesis by linarith
  qed
qed

lemma round64_zero [simp]: "round64 0 = 0"
  by (simp add: round64_def)


lemma round64_of_scaled:
  assumes "x / ulp x = of_int j" shows "round64 x = x"
proof -
  have "round64 x = of_int j * ulp x" unfolding round64_def assms by simp
  also have "\<dots> = x" using assms [symmetric] ulp_pos [of x] by simp
  finally show ?thesis .
qed

lemma two_powr_cancel_le:
  fixes a b :: real
  assumes "a * 2 powr of_int k \<le> b * 2 powr of_int k" shows "a \<le> b"
  using assms by simp

lemma round64_repr:
  assumes x: "x = of_int m * 2 powr of_int k" and m: "\<bar>m\<bar> \<le> 2 ^ 53" and k: "- 1074 \<le> k"
  shows "round64 x = x"
proof -
  have xk: "x / ulp x = of_int m * 2 powr of_int (k - (binade x - 52))"
    unfolding x ulp_def by (simp add: powr_diff)
  show ?thesis
  proof (cases "binade x - 52 \<le> k")
    case True
    then obtain n where n: "k - (binade x - 52) = int n"
      using zero_le_imp_eq_int [of "k - (binade x - 52)"] by auto
    have "x / ulp x = of_int (m * 2 ^ n)" unfolding xk n two_powr_int by simp
    then show ?thesis by (rule round64_of_scaled)
  next
    case False
    then have e: "k + 53 \<le> binade x" by simp
    with k have "- 1022 < binade x" by simp
    from binade_unclamped [OF this] have "2 powr of_int (binade x) \<le> \<bar>x\<bar>" .
    also have ax: "\<bar>x\<bar> = \<bar>of_int m :: real\<bar> * 2 powr of_int k" unfolding x by (simp add: abs_mult)
    finally have A: "2 powr of_int (binade x) \<le> \<bar>of_int m :: real\<bar> * 2 powr of_int k" .
    have p53: "(2::real) powr of_int (k + 53) = 2 ^ 53 * 2 powr of_int k"
    proof -
      have "(2::real) powr of_int (k + int 53) = 2 powr of_int k * 2 ^ 53"
        by (simp only: of_int_add powr_add two_powr_int)
      then show ?thesis by (simp add: mult.commute)
    qed
    have "(2::real) powr of_int (k + 53) \<le> 2 powr of_int (binade x)" using e by (rule two_powr_mono)
    with A have "2 ^ 53 * 2 powr of_int k \<le> \<bar>of_int m :: real\<bar> * 2 powr of_int k" unfolding p53 by linarith
    then have "(2 ^ 53 :: real) \<le> \<bar>of_int m :: real\<bar>" by (rule two_powr_cancel_le)
    then have "(of_int (2 ^ 53) :: real) \<le> of_int \<bar>m\<bar>" by simp
    then have "2 ^ 53 \<le> \<bar>m\<bar>" by (simp only: of_int_le_iff)
    with m have am: "\<bar>m\<bar> = 2 ^ 53" by simp
    then have "of_int \<bar>m\<bar> = (of_int (2 ^ 53) :: real)" by (simp only:)
    then have "\<bar>of_int m :: real\<bar> = 2 ^ 53" by simp
    with A have "2 powr of_int (binade x) \<le> (2::real) powr of_int (k + 53)" unfolding p53 by simp
    then have "binade x \<le> k + 53" by simp
    with e have b: "binade x = k + 53" by simp
    have "k - (binade x - 52) = - 1" unfolding b by simp
    then have "x / ulp x = of_int m * 2 powr of_int (- 1)" unfolding xk by (simp only:)
    then have q: "x / ulp x = of_int m * 2 powr (- 1)" by simp
    have half: "(2::real) powr (- 1) = 1 / 2" by (simp add: powr_neg_one)
    from am have "m = 2 ^ 53 \<or> m = - (2 ^ 53)" by linarith
    then have "m = 2 * (m div 2)" by auto
    then have "(of_int m :: real) = of_int (2 * (m div 2))" by (rule arg_cong)
    then have "(of_int m :: real) = 2 * of_int (m div 2)" by simp
    then have "x / ulp x = of_int (m div 2)" unfolding q half by simp
    then show ?thesis by (rule round64_of_scaled)
  qed
qed

lemma round64_idem: "round64 (round64 x) = round64 x"
proof (rule round64_repr)
  show "round64 x = of_int (rne (x / ulp x)) * 2 powr of_int (binade x - 52)"
    by (simp add: round64_def ulp_def)
  show "\<bar>rne (x / ulp x)\<bar> \<le> 2 ^ 53" using rne_scaled_bounds [of x] by linarith
  show "- 1074 \<le> binade x - 52" using binade_ge [of x] by simp
qed

lemma round64_of_int:
  assumes "\<bar>n\<bar> \<le> 2 ^ 53" shows "round64 (of_int n) = of_int n"
  by (rule round64_repr [of _ n 0]) (use assms in simp_all)

lemma float64_grid:
  assumes "round64 d = d" shows "\<exists>j. d = of_int j * 2 powr (- 1074)"
proof -
  obtain n where n: "binade d - 52 + 1074 = int n"
    using zero_le_imp_eq_int [of "binade d - 52 + 1074"] binade_ge [of d] by auto
  have "binade d - 52 = - 1074 + int n" using n by simp
  then have "ulp d = 2 powr (- 1074) * 2 ^ n"
    unfolding ulp_def by (simp only: of_int_add powr_add two_powr_int) simp
  then have "round64 d = of_int (rne (d / ulp d) * 2 ^ n) * 2 powr (- 1074)"
    unfolding round64_def by simp
  then have "d = of_int (rne (d / ulp d) * 2 ^ n) * 2 powr (- 1074)"
    unfolding assms .
  then show ?thesis by (rule exI)
qed

lemma round64_err_normal:
  assumes "2 powr (- 1022) \<le> \<bar>x\<bar>" shows "\<bar>round64 x - x\<bar> \<le> \<bar>x\<bar> / 2 ^ 53"
proof -
  have pos: "0 < \<bar>x\<bar>" using assms powr_gt_zero [of 2 "- 1022"] by linarith
  then have nz: "x \<noteq> 0" by simp
  have "(- 1022 \<le> log 2 \<bar>x\<bar>) = (2 powr (- 1022) \<le> \<bar>x\<bar>)"
    using pos by (intro le_log_iff) auto
  with assms have "of_int (- 1022) \<le> log 2 \<bar>x\<bar>" by simp
  then have "- 1022 \<le> \<lfloor>log 2 \<bar>x\<bar>\<rfloor>" by (simp only: le_floor_iff)
  then have b: "binade x = \<lfloor>log 2 \<bar>x\<bar>\<rfloor>" using nz by (simp add: binade_def)
  have "2 powr of_int (binade x) \<le> \<bar>x\<bar>" unfolding b using nz by (rule floor_log_le)
  then have u: "ulp x * 2 ^ 52 \<le> \<bar>x\<bar>" by (simp only: two_powr_binade)
  have "round64 x - x = (of_int (rne (x / ulp x)) - x / ulp x) * ulp x"
    unfolding round64_def using ulp_pos [of x] by (simp add: algebra_simps)
  then have "\<bar>round64 x - x\<bar> = \<bar>of_int (rne (x / ulp x)) - x / ulp x\<bar> * ulp x"
    using abs_of_pos [OF ulp_pos [of x]] by (simp add: abs_mult)
  also have "\<dots> \<le> 1 / 2 * ulp x"
    using rne_err [of "x / ulp x"] less_imp_le [OF ulp_pos [of x]] by (rule mult_right_mono)
  also have "\<dots> \<le> \<bar>x\<bar> / 2 ^ 53" using u by simp
  finally show ?thesis .
qed

lemma round64_sub_err:
  assumes a: "round64 a = a" and b: "round64 b = b"
  shows "\<bar>round64 (a - b) - (a - b)\<bar> \<le> \<bar>a - b\<bar> / 2 ^ 53"
proof (cases "2 powr (- 1022) \<le> \<bar>a - b\<bar>")
  case True
  then show ?thesis by (rule round64_err_normal)
next
  case False
  from float64_grid [OF a] float64_grid [OF b] obtain ja jb
    where ja: "a = of_int ja * 2 powr (- 1074)" and jb: "b = of_int jb * 2 powr (- 1074)" by blast
  have d: "a - b = of_int (ja - jb) * 2 powr of_int (- 1074)"
    unfolding ja jb by (simp add: algebra_simps)
  have "\<bar>of_int (ja - jb)\<bar> * 2 powr (- 1074) < (2::real) powr (- 1022)"
    using False unfolding d by (simp add: abs_mult)
  also have "(2::real) powr (- 1022) = 2 ^ 52 * 2 powr (- 1074)"
  proof -
    have "(2::real) powr (of_int (- 1074) + of_int (int 52)) = 2 powr of_int (- 1074) * 2 ^ 52"
      by (simp only: powr_add two_powr_int)
    then show ?thesis by (simp add: mult.commute)
  qed
  finally have "\<bar>of_int (ja - jb)\<bar> < (2 ^ 52 :: real)" by simp
  then have "(of_int \<bar>ja - jb\<bar> :: real) < of_int (2 ^ 52)" by simp
  then have "\<bar>ja - jb\<bar> < 2 ^ 52" by (simp only: of_int_less_iff)
  then have "\<bar>ja - jb\<bar> \<le> 2 ^ 53" by simp
  from round64_repr [OF d this] have "round64 (a - b) = a - b" by simp
  then show ?thesis by simp
qed

lemma binade_eq:
  assumes "2 powr of_int e \<le> \<bar>x\<bar>" "\<bar>x\<bar> < 2 powr of_int (e + 1)" "- 1022 \<le> e"
  shows "binade x = e"
proof -
  have pos: "0 < \<bar>x\<bar>" using assms(1) powr_gt_zero [of 2 "of_int e"] by linarith
  then have nz: "x \<noteq> 0" by simp
  have "(of_int e \<le> log 2 \<bar>x\<bar>) = (2 powr of_int e \<le> \<bar>x\<bar>)"
    using pos by (intro le_log_iff) auto
  moreover have "(log 2 \<bar>x\<bar> < of_int (e + 1)) = (\<bar>x\<bar> < 2 powr of_int (e + 1))"
    using pos by (intro log_less_iff) auto
  ultimately have "of_int e \<le> log 2 \<bar>x\<bar>" "log 2 \<bar>x\<bar> < of_int e + 1" using assms by simp_all
  then have "\<lfloor>log 2 \<bar>x\<bar>\<rfloor> = e" by (simp add: floor_eq_iff)
  then show ?thesis using nz assms(3) by (simp add: binade_def)
qed


section \<open>The report-column registry\<close>

lemma count_key_distinct:
  "distinct (map fst xs) \<Longrightarrow> k \<in> fst ` set xs \<Longrightarrow> length (filter (\<lambda>e. fst e = k) xs) = 1"
proof (induction xs)
  case Nil
  then show ?case by simp
next
  case (Cons x xs)
  show ?case
  proof (cases "fst x = k")
    case True
    from Cons.prems(1) have "fst x \<notin> set (map fst xs)" by simp
    with True have "\<forall>e\<in>set xs. fst e \<noteq> k" by (metis image_eqI set_map)
    then have "filter (\<lambda>e. fst e = k) xs = []"
      by (simp add: filter_empty_conv)
    with True show ?thesis by simp
  next
    case False
    with Cons show ?thesis by auto
  qed
qed

lemma register_present: "full_name \<in> fst ` set reg \<Longrightarrow> register full_name reg = reg"
  by (simp add: register_def)

lemma register_keys: "fst ` set (register full_name reg) = insert full_name (fst ` set reg)"
  by (auto simp: register_def dom_update)

lemma register_distinct: "distinct (map fst reg) \<Longrightarrow> distinct (map fst (register full_name reg))"
  by (simp add: register_def distinct_update)

lemma register_keeps_type:
  "map_of reg full_name = Some ty \<Longrightarrow> map_of (register full_name reg) full_name = Some ty"
  by (auto simp: register_def dest: map_of_SomeD intro: rev_image_eqI)

lemma register_other: "k \<noteq> full_name \<Longrightarrow> map_of (register full_name reg) k = map_of reg k"
  by (simp add: register_def update_conv')

text \<open>
  C7.  Registration is idempotent.  For every registry and every column name:
  registering a name that is present leaves the registry as it is; registering a name
  twice gives the registry that registering it once gives; a name that had a type keeps
  it; and in a registry with distinct keys (a dictionary) the name then has exactly one
  entry.  \<open>_add_energy_reports\<close> and \<open>SimpleAgent.usage\<close> change the registry through
  \<open>register\<close> only (the two lemmas after the witness).
\<close>

theorem register_idempotent:
  "(full_name \<in> fst ` set reg \<longrightarrow> register full_name reg = reg)
   \<and> register full_name (register full_name reg) = register full_name reg
   \<and> (\<forall>ty. map_of reg full_name = Some ty
          \<longrightarrow> map_of (register full_name (register full_name reg)) full_name = Some ty)
   \<and> (distinct (map fst reg)
          \<longrightarrow> length (filter (\<lambda>e. fst e = full_name) (register full_name (register full_name reg))) = 1)"
proof -
  have twice: "register full_name (register full_name reg) = register full_name reg"
    by (rule register_present) (simp add: register_keys)
  have one: "distinct (map fst reg) \<Longrightarrow>
      length (filter (\<lambda>e. fst e = full_name) (register full_name reg)) = 1"
    by (rule count_key_distinct) (simp_all add: register_distinct register_keys)
  show ?thesis using twice one by (simp add: register_present register_keeps_type)
qed

theorem register_idempotent_witness:
  "''peak Grid to Home (kWh)'' \<in> fst ` set [(''peak Grid to Home (kWh)'', ''number'')]
   \<and> distinct (map fst [(''peak Grid to Home (kWh)'', ''number'')])
   \<and> map_of [(''peak Grid to Home (kWh)'', ''number'')] ''peak Grid to Home (kWh)'' = Some ''number''
   \<and> register ''peak Grid to Home (kWh)'' [(''peak Grid to Home (kWh)'', ''number'')]
       = [(''peak Grid to Home (kWh)'', ''number'')]
   \<and> length (filter (\<lambda>e. fst e = ''peak Grid to Home (kWh)'')
        (register ''peak Grid to Home (kWh)''
          (register ''peak Grid to Home (kWh)'' [(''peak Grid to Home (kWh)'', ''number'')]))) = 1"
  using register_idempotent [of "''peak Grid to Home (kWh)''" "[(''peak Grid to Home (kWh)'', ''number'')]"]
  by simp

lemma add_energy_report_registry:
  "add_energy_report eng tariff_name tariff_idx column st = Inr st' \<Longrightarrow>
     req_report_cols st' =
       (if column \<in> {TIME, TARIFF, SUPPLY_CHARGE} then req_report_cols st
        else register (report_name tariff_name (value_with_override (cls_col_overrides eng) column)
                         (cls_energy_unit eng)) (req_report_cols st))"
  by (auto simp: add_energy_report_def Let_def bindE_Inr_iff split: if_splits)

lemma simple_agent_rate_registry:
  "simple_agent_rate eng tariff_name tariff_idx (Sanitised c, rate) st = Inr st' \<Longrightarrow>
     req_report_cols st' =
       register (report_name tariff_name (value_with_override (cls_col_overrides eng) c)
                   (cls_cost_unit eng)) (req_report_cols st)"
  by (auto simp: simple_agent_rate_def Let_def bindE_Inr_iff split: if_splits)


section \<open>Tariff periods\<close>

lemma bindE_Inr_right: "bindE m Inr = m"
  by (cases m) simp_all

lemma foldE_Nil_fun: "foldE f [] = Inr"
  by (rule ext) simp

text \<open>
  C6.  For a schedule whose period list has exactly one element, the mask of that period
  is the whole day-filtered mask, whatever the start and end of the period are, and it
  is this mask that reaches the energy reports and the agent.
\<close>

theorem single_period_mask:
  assumes "periods schedule = [period]"
  shows "tariff_index schedule period day_idx = day_idx
    \<and> apply_schedule eng entry usage_plan season_idx schedule st =
        (let day_idx = day_index schedule season_idx in
         if day_idx = [] then Inr st
         else bindE (add_energy_reports eng (tariff period) day_idx usage_plan st) (\<lambda>st1.
              bindE (getitem (tariffs entry) (tariff period)) (\<lambda>rates.
              simple_agent_usage eng (tariff period) day_idx rates st1)))"
  using assms
  by (simp add: tariff_index_def apply_schedule_def apply_period_def Let_def
      foldE_Nil_fun bindE_Inr_right)

theorem single_period_mask_witness:
  "periods flat_schedule = [\<lparr>tariff = ''flat'', start = 50400000000, end_time = 50400000000\<rparr>]
   \<and> tariff_index flat_schedule \<lparr>tariff = ''flat'', start = 50400000000, end_time = 50400000000\<rparr>
        [utc_stamp 0, utc_stamp 3600000000, utc_stamp 82800000000] = [utc_stamp 0, utc_stamp 3600000000, utc_stamp 82800000000]
   \<and> between_time_left 50400000000 50400000000 [utc_stamp 0, utc_stamp 3600000000, utc_stamp 82800000000] = []"
  using single_period_mask [of flat_schedule
      "\<lparr>tariff = ''flat'', start = 50400000000, end_time = 50400000000\<rparr>"
      "[utc_stamp 0, utc_stamp 3600000000, utc_stamp 82800000000]"]
  by (simp add: flat_schedule_def between_time_left_def in_time_range_def time_of_day_def day_us_def utc_stamp_def)

lemma filter_two_ge:
  assumes "i < j" "j < length xs" "Q (xs ! i)" "Q (xs ! j)"
  shows "2 \<le> length (filter Q xs)"
proof -
  have i: "i < length xs" using assms by simp
  have xs: "xs = take i xs @ xs ! i # drop (Suc i) xs" using i by (rule id_take_nth_drop)
  have "xs ! j = drop (Suc i) xs ! (j - Suc i)" using assms by simp
  moreover have "j - Suc i < length (drop (Suc i) xs)" using assms by simp
  ultimately have "xs ! j \<in> set (drop (Suc i) xs)" by (metis nth_mem)
  with assms(4) have "filter Q (drop (Suc i) xs) \<noteq> []" by (auto simp: filter_empty_conv)
  then have "1 \<le> length (filter Q (drop (Suc i) xs))" by (cases "filter Q (drop (Suc i) xs)") simp_all
  moreover have "length (filter Q xs) =
      length (filter Q (take i xs)) + length (filter Q (xs ! i # drop (Suc i) xs))"
    by (subst xs) simp
  ultimately show ?thesis using assms(3) by simp
qed

lemma filter_one_ex:
  assumes "length (filter Q xs) = 1"
  shows "\<exists>i<length xs. Q (xs ! i)"
proof -
  from assms have "filter Q xs \<noteq> []" by auto
  then obtain x where "x \<in> set xs" "Q x" by (auto simp: filter_empty_conv)
  then show ?thesis by (auto simp: in_set_conv_nth)
qed

lemma length_filter_rotate: "length (filter Q (rotate k xs)) = length (filter Q xs)"
proof -
  let ?n = "k mod length xs"
  have "length (filter Q xs) = length (filter Q (take ?n xs @ drop ?n xs))" by simp
  also have "\<dots> = length (filter Q (drop ?n xs)) + length (filter Q (take ?n xs))"
    by (simp only: filter_append length_append add.commute)
  also have "\<dots> = length (filter Q (rotate k xs))"
    by (simp add: rotate_drop_take)
  finally show ?thesis by simp
qed

lemma rotate1_zip: "length xs = length ys \<Longrightarrow> rotate1 (zip xs ys) = zip (rotate1 xs) (rotate1 ys)"
  by (cases xs; cases ys) simp_all

lemma rotate_zip: "length xs = length ys \<Longrightarrow> rotate k (zip xs ys) = zip (rotate k xs) (rotate k ys)"
  by (induction k) (simp_all add: rotate1_zip)

lemma rotate_rotate1: "rotate k (rotate1 xs) = rotate1 (rotate k xs)"
  by (metis rotate1_rotate_swap)

text \<open>The boundaries of consecutive periods of an ascending list hold a time at most once.\<close>

lemma zip_snoc:
  "length xs = Suc (length ys) \<Longrightarrow> zip xs (ys @ [z]) = zip xs ys @ [(last xs, z)]"
proof (induction xs arbitrary: ys)
  case Nil
  then show ?case by simp
next
  case (Cons x xs)
  show ?case
  proof (cases ys)
    case Nil
    with Cons.prems show ?thesis by simp
  next
    case (Cons y ys')
    with Cons.prems have len: "length xs = Suc (length ys')" by simp
    then have ne: "xs \<noteq> []" by auto
    have "zip xs (ys' @ [z]) = zip xs ys' @ [(last xs, z)]" using len by (rule Cons.IH)
    then show ?thesis using ne by (simp add: Cons)
  qed
qed

lemma zip_rotate1: "xs \<noteq> [] \<Longrightarrow> zip xs (rotate1 xs) = zip xs (tl xs) @ [(last xs, hd xs)]"
proof -
  assume ne: "xs \<noteq> []"
  then have r: "rotate1 xs = tl xs @ [hd xs]" by (cases xs) simp_all
  from ne have "length xs = Suc (length (tl xs))" by (cases xs) simp_all
  then show ?thesis unfolding r by (rule zip_snoc)
qed

lemma chain_count:
  assumes "sorted_wrt (<) cs" and "cs \<noteq> []"
  shows "length (filter (\<lambda>(a, b). in_time_range a b t) (zip cs (tl cs)))
      = (if hd cs \<le> t \<and> t < last cs then 1 else 0)"
  using assms
proof (induction cs rule: induct_list012)
  case 1
  then show ?case by simp
next
  case (2 c)
  then show ?case by simp
next
  case (3 c d rest)
  have cd: "c < d" using "3.prems"(1) by simp
  have dl: "d \<le> last (d # rest)" using "3.prems"(1)
    by (cases rest) (auto simp: less_imp_le)
  have first: "in_time_range c d t \<longleftrightarrow> c \<le> t \<and> t < d"
    using cd by (simp add: in_time_range_def)
  have ih: "length (filter (\<lambda>(a, b). in_time_range a b t) (zip (d # rest) (tl (d # rest))))
      = (if d \<le> t \<and> t < last (d # rest) then 1 else 0)"
    using "3.IH"(2) "3.prems"(1) by simp
  have "length (filter (\<lambda>(a, b). in_time_range a b t) (zip (c # d # rest) (tl (c # d # rest))))
      = (if c \<le> t \<and> t < d then 1 else 0)
        + length (filter (\<lambda>(a, b). in_time_range a b t) (zip (d # rest) (tl (d # rest))))"
    by (simp add: first)
  also have "\<dots> = (if c \<le> t \<and> t < last (d # rest) then 1 else 0)"
    unfolding ih using cd dl by auto
  finally show ?case by simp
qed

lemma wrap_count:
  assumes "sorted_wrt (<) cs" and "2 \<le> length cs"
  shows "length (filter (\<lambda>(a, b). in_time_range a b t) (zip cs (rotate1 cs))) = 1"
proof -
  from assms(2) obtain c d rest where cs: "cs = c # d # rest"
    by (cases cs; simp; cases "tl cs"; simp)
  have ne: "cs \<noteq> []" by (simp add: cs)
  have lt: "hd cs < last cs" using assms(1) unfolding cs
    by (cases rest) auto
  then have wrap: "in_time_range (last cs) (hd cs) t \<longleftrightarrow> \<not> (hd cs \<le> t \<and> t < last cs)"
    by (auto simp: in_time_range_def)
  show ?thesis
    unfolding zip_rotate1 [OF ne] using chain_count [OF assms(1) ne, of t] wrap
    by simp
qed


lemma cyclic_count:
  assumes "sorted_wrt (<) (rotate k bs)" and "2 \<le> length bs"
  shows "length (filter (\<lambda>(a, b). in_time_range a b t) (zip bs (rotate1 bs))) = 1"
proof -
  have "length (filter (\<lambda>(a, b). in_time_range a b t)
          (zip (rotate k bs) (rotate1 (rotate k bs)))) = 1"
    using assms by (intro wrap_count) simp_all
  also have "zip (rotate k bs) (rotate1 (rotate k bs)) = rotate k (zip bs (rotate1 bs))"
    by (simp add: rotate_zip rotate_rotate1)
  finally show ?thesis by (simp add: length_filter_rotate)
qed

lemma make_period_Inr:
  assumes "make_period parse this nxt = Inr p"
  shows "parse (fst this) = Some (start p)" and "parse (fst nxt) = Some (end_time p)"
    and "tariff p = snd this"
  using assms by (auto simp: make_period_def split: option.splits)

lemma make_periods_Inr:
  assumes "make_periods parse items = Inr ps"
  shows "items \<noteq> []" and "length ps = length items"
    and "\<And>i. i < length items \<Longrightarrow> parse (fst (items ! i)) = Some (start (ps ! i))"
    and "\<And>i. i < length items \<Longrightarrow>
           parse (fst (items ! (Suc i mod length items))) = Some (end_time (ps ! i))"
    and "\<And>i. i < length items \<Longrightarrow> tariff (ps ! i) = snd (items ! i)"
proof -
  from assms obtain ps0 p where
    ps0: "mapE (\<lambda>(this, nxt). make_period parse this nxt) (pairwise items) = Inr ps0"
    and ne: "items \<noteq> []"
    and p: "make_period parse (last items) (if length items = 1 then last items else hd items) = Inr p"
    and ps: "ps = ps0 @ [p]"
    by (auto simp: make_periods_def bindE_Inr_iff Let_def split: if_splits)
  show "items \<noteq> []" by (rule ne)
  have len0: "length ps0 = length items - 1"
    using mapE_Inr_length [OF ps0] by (simp add: pairwise_def)
  show len: "length ps = length items" using len0 ne by (cases items) (simp_all add: ps)
  have inner: "make_period parse (items ! i) (items ! Suc i) = Inr (ps0 ! i)"
    if "Suc i < length items" for i
  proof -
    have "i < length (pairwise items)" using that by (simp add: pairwise_def)
    from mapE_Inr_nth [OF ps0 this] that show ?thesis
      by (simp add: pairwise_def nth_tl)
  qed
  have lastp: "ps ! (length items - 1) = p" using len0 by (simp add: ps nth_append)
  have lasti: "last items = items ! (length items - 1)" using ne by (rule last_conv_nth)
  have hdi: "hd items = items ! 0" using ne by (rule hd_conv_nth)
  {
    fix i assume i: "i < length items"
    show "parse (fst (items ! i)) = Some (start (ps ! i))"
    proof (cases "Suc i < length items")
      case True
      then have "ps ! i = ps0 ! i" using len0 by (simp add: ps nth_append)
      with make_period_Inr(1) [OF inner [OF True]] show ?thesis by simp
    next
      case False
      with i have "i = length items - 1" by simp
      with make_period_Inr(1) [OF p] lastp lasti show ?thesis by simp
    qed
    show "parse (fst (items ! (Suc i mod length items))) = Some (end_time (ps ! i))"
    proof (cases "Suc i < length items")
      case True
      then have "ps ! i = ps0 ! i" using len0 by (simp add: ps nth_append)
      with make_period_Inr(2) [OF inner [OF True]] True show ?thesis by simp
    next
      case False
      with i have il: "i = length items - 1" by simp
      from False i have "Suc i = length items" by simp
      then have m: "Suc i mod length items = 0" by simp
      show ?thesis
      proof (cases "length items = 1")
        case True
        with make_period_Inr(2) [OF p] lastp lasti il m show ?thesis by simp
      next
        case False
        with make_period_Inr(2) [OF p] lastp hdi il m show ?thesis by simp
      qed
    qed
    show "tariff (ps ! i) = snd (items ! i)"
    proof (cases "Suc i < length items")
      case True
      then have "ps ! i = ps0 ! i" using len0 by (simp add: ps nth_append)
      with make_period_Inr(3) [OF inner [OF True]] show ?thesis by simp
    next
      case False
      with i have "i = length items - 1" by simp
      with make_period_Inr(3) [OF p] lastp lasti show ?thesis by simp
    qed
  }
qed

lemma make_periods_wrap:
  assumes "make_periods parse items = Inr ps"
  shows "map end_time ps = rotate1 (map start ps)"
proof (rule nth_equalityI)
  note f = make_periods_Inr [OF assms]
  show "length (map end_time ps) = length (rotate1 (map start ps))" by simp
  fix i assume "i < length (map end_time ps)"
  then have i: "i < length items" using f(2) by simp
  have "0 < length items" using f(1) by simp
  then have j: "Suc i mod length items < length items" by (rule mod_less_divisor)
  have "Some (end_time (ps ! i)) = Some (start (ps ! (Suc i mod length items)))"
    using f(4) [OF i] f(3) [OF j] by simp
  then show "map end_time ps ! i = rotate1 (map start ps) ! i"
    using i j f(2) by (simp add: nth_rotate1)
qed


lemma period_count:
  assumes built: "make_periods parse items = Inr ps"
    and two: "2 \<le> length ps"
    and asc: "cyclically_ascending (map start ps)"
  shows "length (filter (\<lambda>p. in_time_range (start p) (end_time p) t) ps) = 1"
proof -
  from asc obtain k where k: "sorted_wrt (<) (rotate k (map start ps))"
    by (auto simp: cyclically_ascending_def list_ex_iff)
  have "zip (map start ps) (rotate1 (map start ps)) = map (\<lambda>p. (start p, end_time p)) ps"
    unfolding make_periods_wrap [OF built, symmetric] by (simp add: zip_map_map zip_same_conv_map)
  moreover have "length (filter (\<lambda>(a, b). in_time_range a b t)
      (zip (map start ps) (rotate1 (map start ps)))) = 1"
    using k two by (intro cyclic_count) simp_all
  ultimately show ?thesis by (simp add: filter_map o_def)
qed

lemma period_boundaries_differ:
  assumes built: "make_periods parse items = Inr ps"
    and two: "2 \<le> length ps"
    and asc: "cyclically_ascending (map start ps)"
    and i: "i < length ps"
  shows "start (ps ! i) \<noteq> end_time (ps ! i)"
proof -
  from asc obtain k where k: "sorted_wrt (<) (rotate k (map start ps))"
    by (auto simp: cyclically_ascending_def list_ex_iff)
  then have "distinct (rotate k (map start ps))" by (simp add: strict_sorted_iff)
  then have d: "distinct (map start ps)" by simp
  let ?j = "Suc i mod length ps"
  have pos: "0 < length ps" using two by arith
  have j: "?j < length ps" using pos by (rule mod_less_divisor)
  have ne: "?j \<noteq> i"
  proof (cases "Suc i < length ps")
    case True
    then show ?thesis by simp
  next
    case False
    with i have "Suc i = length ps" by simp
    then have "?j = 0" and "i \<noteq> 0" using two by simp_all
    then show ?thesis by simp
  qed
  have "end_time (ps ! i) = map end_time ps ! i" using i by simp
  also have "\<dots> = map start ps ! ?j"
    unfolding make_periods_wrap [OF built] using i by (simp add: nth_rotate1)
  finally have "end_time (ps ! i) = map start ps ! ?j" .
  moreover have "map start ps ! ?j \<noteq> map start ps ! i"
    using d j i ne by (simp add: nth_eq_iff_index_eq del: nth_map)
  ultimately show ?thesis using i by simp
qed

text \<open>
  C5 (amended).  For a schedule whose two or more periods \<open>_init_seasons\<close> built from
  boundaries that are in cyclic order (some rotation of their list is strictly
  ascending), and every day-filtered list of timestamps: the masks of two different
  periods are disjoint, the masks of all periods together are the day-filtered mask, and
  a timestamp whose time of day is the start of a period is in the mask of that period.
\<close>

theorem schedule_tiling:
  assumes built: "make_periods parse items = Inr (periods schedule)"
    and two: "2 \<le> length (periods schedule)"
    and asc: "cyclically_ascending (map start (periods schedule))"
  shows "(\<forall>i j. i < j \<and> j < length (periods schedule) \<longrightarrow>
            set (tariff_index schedule (periods schedule ! i) day_idx)
              \<inter> set (tariff_index schedule (periods schedule ! j) day_idx) = {})
       \<and> (\<Union>p\<in>set (periods schedule). set (tariff_index schedule p day_idx)) = set day_idx
       \<and> (\<forall>i<length (periods schedule). \<forall>t\<in>set day_idx.
            time_of_day t = start (periods schedule ! i)
              \<longrightarrow> t \<in> set (tariff_index schedule (periods schedule ! i) day_idx))"
proof -
  let ?ps = "periods schedule"
  let ?Q = "\<lambda>t p. in_time_range (start p) (end_time p) (time_of_day t)"
  have mask: "set (tariff_index schedule p day_idx) = {t \<in> set day_idx. ?Q t p}" for p
    using two by (auto simp: tariff_index_def between_time_left_def)
  have one: "length (filter (?Q t) ?ps) = 1" for t
    using built two asc by (rule period_count)
  have disjoint: "set (tariff_index schedule (?ps ! i) day_idx)
      \<inter> set (tariff_index schedule (?ps ! j) day_idx) = {}"
    if "i < j" "j < length ?ps" for i j
  proof -
    {
      fix t assume "?Q t (?ps ! i)" "?Q t (?ps ! j)"
      with that have "2 \<le> length (filter (?Q t) ?ps)" by (intro filter_two_ge)
      with one [of t] have False by simp
    }
    then show ?thesis unfolding mask by blast
  qed
  have cover: "(\<Union>p\<in>set ?ps. set (tariff_index schedule p day_idx)) = set day_idx"
  proof
    show "(\<Union>p\<in>set ?ps. set (tariff_index schedule p day_idx)) \<subseteq> set day_idx"
      unfolding mask by blast
    show "set day_idx \<subseteq> (\<Union>p\<in>set ?ps. set (tariff_index schedule p day_idx))"
    proof
      fix t assume t: "t \<in> set day_idx"
      from filter_one_ex [OF one [of t]] obtain i where "i < length ?ps" "?Q t (?ps ! i)"
        by blast
      with t show "t \<in> (\<Union>p\<in>set ?ps. set (tariff_index schedule p day_idx))"
        unfolding mask by (auto intro!: bexI [of _ "?ps ! i"])
    qed
  qed
  have boundary: "t \<in> set (tariff_index schedule (?ps ! i) day_idx)"
    if "i < length ?ps" "t \<in> set day_idx" "time_of_day t = start (?ps ! i)" for i t
  proof -
    have "start (?ps ! i) \<noteq> end_time (?ps ! i)"
      using built two asc that(1) by (rule period_boundaries_differ)
    then have "?Q t (?ps ! i)" using that(3) by (auto simp: in_time_range_def)
    with that(2) show ?thesis unfolding mask by simp
  qed
  from disjoint cover boundary show ?thesis by blast
qed

lemma peak_periods: "make_periods hhmm peak_items = Inr (periods peak_schedule)"
  by (simp add: make_periods_def pairwise_def make_period_def hhmm_def digit_def peak_items_def
      peak_schedule_def)

lemma unordered_periods: "make_periods hhmm unordered_items = Inr (periods unordered_schedule)"
  by (simp add: make_periods_def pairwise_def make_period_def hhmm_def digit_def
      unordered_items_def unordered_schedule_def)

text \<open>
  Scenario B: on Monday 1970-01-05 the rows of 13:00, 14:00 and 20:00; the 14:00 row is
  in the peak mask, the 20:00 row in the off-peak mask.
\<close>

theorem schedule_tiling_witness:
  "make_periods hhmm peak_items = Inr (periods peak_schedule)
   \<and> 2 \<le> length (periods peak_schedule)
   \<and> cyclically_ascending (map start (periods peak_schedule))
   \<and> tariff_index peak_schedule (periods peak_schedule ! 0)
        [utc_stamp 392400000000, utc_stamp 396000000000, utc_stamp 417600000000] = [utc_stamp 396000000000]
   \<and> tariff_index peak_schedule (periods peak_schedule ! 1)
        [utc_stamp 392400000000, utc_stamp 396000000000, utc_stamp 417600000000] = [utc_stamp 392400000000, utc_stamp 417600000000]
   \<and> set (tariff_index peak_schedule (periods peak_schedule ! 0)
          [utc_stamp 392400000000, utc_stamp 396000000000, utc_stamp 417600000000])
       \<inter> set (tariff_index peak_schedule (periods peak_schedule ! 1)
          [utc_stamp 392400000000, utc_stamp 396000000000, utc_stamp 417600000000]) = {}"
proof -
  have asc: "cyclically_ascending (map start (periods peak_schedule))"
    by (simp add: cyclically_ascending_def peak_schedule_def upt_rec)
  have two: "2 \<le> length (periods peak_schedule)" by (simp add: peak_schedule_def)
  have m0: "tariff_index peak_schedule (periods peak_schedule ! 0)
        [utc_stamp 392400000000, utc_stamp 396000000000, utc_stamp 417600000000] = [utc_stamp 396000000000]"
    and m1: "tariff_index peak_schedule (periods peak_schedule ! 1)
        [utc_stamp 392400000000, utc_stamp 396000000000, utc_stamp 417600000000] = [utc_stamp 392400000000, utc_stamp 417600000000]"
    by (simp_all add: tariff_index_def between_time_left_def in_time_range_def time_of_day_def
        day_us_def utc_stamp_def peak_schedule_def)
  have len: "(1::nat) < length (periods peak_schedule)" by (simp add: peak_schedule_def)
  from schedule_tiling [OF peak_periods two asc, of "[utc_stamp 392400000000, utc_stamp 396000000000, utc_stamp 417600000000]"]
  have "\<forall>i j. i < j \<and> j < length (periods peak_schedule) \<longrightarrow>
      set (tariff_index peak_schedule (periods peak_schedule ! i)
          [utc_stamp 392400000000, utc_stamp 396000000000, utc_stamp 417600000000])
       \<inter> set (tariff_index peak_schedule (periods peak_schedule ! j)
          [utc_stamp 392400000000, utc_stamp 396000000000, utc_stamp 417600000000]) = {}"
    by (rule conjunct1)
  with len have "set (tariff_index peak_schedule (periods peak_schedule ! 0)
          [utc_stamp 392400000000, utc_stamp 396000000000, utc_stamp 417600000000])
       \<inter> set (tariff_index peak_schedule (periods peak_schedule ! 1)
          [utc_stamp 392400000000, utc_stamp 396000000000, utc_stamp 417600000000]) = {}"
    by (metis zero_less_one)
  with peak_periods two asc m0 m1 show ?thesis by blast
qed

text \<open>
  The claim as stated covers every schedule \<open>_init_seasons\<close> builds.  From the boundaries
  00:00, 20:00, 14:00, in this order, it builds the periods 00:00 to 20:00, 20:00 to
  14:00 and 14:00 to 00:00; the row of Monday 15:00 is in the first and in the third.
\<close>

theorem schedule_tiling_counterexample:
  "make_periods hhmm unordered_items = Inr (periods unordered_schedule)
   \<and> 2 \<le> length (periods unordered_schedule)
   \<and> \<not> set (tariff_index unordered_schedule (periods unordered_schedule ! 0) [utc_stamp 399600000000])
         \<inter> set (tariff_index unordered_schedule (periods unordered_schedule ! 2) [utc_stamp 399600000000])
       = {}"
proof -
  have "\<not> set (tariff_index unordered_schedule (periods unordered_schedule ! 0) [utc_stamp 399600000000])
         \<inter> set (tariff_index unordered_schedule (periods unordered_schedule ! 2) [utc_stamp 399600000000])
       = {}"
    by (simp add: tariff_index_def between_time_left_def in_time_range_def time_of_day_def
        day_us_def utc_stamp_def unordered_schedule_def)
  moreover have "2 \<le> length (periods unordered_schedule)" by (simp add: unordered_schedule_def)
  ultimately show ?thesis using unordered_periods by blast
qed


section \<open>Calendar resolution\<close>

lemma process_entries_record_ex:
  "\<exists>calls. \<forall>acc. process_entries record_call range_stop entries season_start acc = Inr (acc @ calls)"
proof (induction entries arbitrary: season_start)
  case Nil
  then show ?case by simp
next
  case (Cons entry entries)
  define s where
    "s = (if wall season_start \<le> wall (start_date entry) then start_date entry else season_start)"
  show ?case
  proof (cases "wall (start_date entry) \<ge> wall range_stop \<or> wall s \<ge> wall range_stop")
    case True
    then have "\<forall>acc. process_entries record_call range_stop (entry # entries) season_start acc
        = Inr (acc @ [])"
      by (auto simp: s_def Let_def)
    then show ?thesis by blast
  next
    case False
    show ?thesis
    proof (cases "end_date entry")
      case None
      from Cons.IH [of range_stop] obtain calls where
        c: "\<And>acc. process_entries record_call range_stop entries range_stop acc = Inr (acc @ calls)"
        by blast
      have "\<forall>acc. process_entries record_call range_stop (entry # entries) season_start acc
          = Inr (acc @ ((entry, s, range_stop) # calls))"
        using False None by (simp add: s_def [symmetric] Let_def record_call_def c)
      then show ?thesis by blast
    next
      case (Some entry_end)
      show ?thesis
      proof (cases "wall s \<ge> wall entry_end")
        case True
        from Cons.IH [of s] obtain calls where
          c: "\<And>acc. process_entries record_call range_stop entries s acc = Inr (acc @ calls)"
          by blast
        have "\<forall>acc. process_entries record_call range_stop (entry # entries) season_start acc
            = Inr (acc @ calls)"
          using False Some True by (simp add: s_def [symmetric] Let_def c)
        then show ?thesis by blast
      next
        case nt: False
        define f where "f = (if wall range_stop > wall entry_end then entry_end else range_stop)"
        from Cons.IH [of f] obtain calls where
          c: "\<And>acc. process_entries record_call range_stop entries f acc = Inr (acc @ calls)"
          by blast
        have "\<forall>acc. process_entries record_call range_stop (entry # entries) season_start acc
            = Inr (acc @ ((entry, s, f) # calls))"
          using False Some nt
          by (simp add: s_def [symmetric] f_def [symmetric] Let_def record_call_def c)
        then show ?thesis by blast
      qed
    qed
  qed
qed

lemma process_entries_record:
  "process_entries record_call range_stop entries season_start acc
     = Inr (acc @ emitted season_start range_stop entries)"
proof -
  from process_entries_record_ex obtain calls where
    c: "\<And>acc. process_entries record_call range_stop entries season_start acc = Inr (acc @ calls)"
    by blast
  from c [of "[]"] have "emitted season_start range_stop entries = calls"
    by (simp add: emitted_def)
  with c show ?thesis by simp
qed

lemma emitted_Nil: "emitted range_start range_stop [] = []"
  by (simp add: emitted_def)

lemma emitted_Cons:
  "emitted season_start range_stop (entry # entries) =
     (if wall (start_date entry) \<ge> wall range_stop then []
      else
        let s = (if wall season_start \<le> wall (start_date entry) then start_date entry
                 else season_start) in
          if wall s \<ge> wall range_stop then []
          else
            case end_date entry of
              Some entry_end \<Rightarrow>
                if wall s \<ge> wall entry_end then emitted s range_stop entries
                else
                  let f = (if wall range_stop > wall entry_end then entry_end else range_stop)
                  in (entry, s, f) # emitted f range_stop entries
            | None \<Rightarrow> (entry, s, range_stop) # emitted range_stop range_stop entries)"
proof -
  have "emitted season_start range_stop (entry # entries)
      = (case process_entries record_call range_stop (entry # entries) season_start [] of
           Inr calls \<Rightarrow> calls | Inl e \<Rightarrow> [])"
    by (simp only: emitted_def)
  also have "\<dots> = (if wall (start_date entry) \<ge> wall range_stop then []
      else
        let s = (if wall season_start \<le> wall (start_date entry) then start_date entry
                 else season_start) in
          if wall s \<ge> wall range_stop then []
          else
            case end_date entry of
              Some entry_end \<Rightarrow>
                if wall s \<ge> wall entry_end then emitted s range_stop entries
                else
                  let f = (if wall range_stop > wall entry_end then entry_end else range_stop)
                  in (entry, s, f) # emitted f range_stop entries
            | None \<Rightarrow> (entry, s, range_stop) # emitted range_stop range_stop entries)"
    by (simp add: process_entries_record record_call_def Let_def split: option.splits)
  finally show ?thesis .
qed











text \<open>
  The loop with any callback makes the calls of \<open>emitted\<close>, in order, until one raises.
\<close>

lemma process_entries_fold:
  "process_entries f range_stop entries season_start st
     = foldE (\<lambda>c. f (fst c) (fst (snd c)) (snd (snd c)))
         (emitted season_start range_stop entries) st"
proof (induction entries arbitrary: season_start st)
  case Nil
  then show ?case by (simp add: emitted_Nil)
next
  case (Cons entry entries)
  have ih: "process_entries f range_stop entries s
     = foldE (\<lambda>c. f (fst c) (fst (snd c)) (snd (snd c))) (emitted s range_stop entries)" for s
    by (rule ext) (rule Cons.IH)
  show ?case
    by (simp add: emitted_Cons ih Let_def split: option.splits)
qed






end
